theory Spec2Isabelle
  imports Complex_Main
begin

section \<open>CloudWatch CPU metric retrieval (server/src/aws/ec2.ts)\<close>

text \<open>
  Instants are JavaScript \<^verbatim>\<open>Date\<close> time values: whole milliseconds, modelled as
  \<open>int\<close>. A period is a whole number of seconds. Divisions the source performs on
  JavaScript numbers are modelled exactly, over the rationals. CPU values are carried
  through unchanged and are modelled as rationals.

  The functions that call the metric source pass along the history of the query, the
  list of the calls and sleeps made so far, and return it extended. A rejected promise
  is a result \<open>Inl error\<close>, a fulfilled one \<open>Inr value\<close>. The fetches that
  \<^verbatim>\<open>Promise.all\<close> runs together advance in an order given by a scheduler, a parameter
  of the model; a property stated for every scheduler holds for every order of completion.
\<close>

subsection \<open>Constants\<close>

definition MAX_DATAPOINTS :: int where
  "MAX_DATAPOINTS = 1440"

definition MAX_CONCURRENT_REQUESTS :: nat where
  "MAX_CONCURRENT_REQUESTS = 5"

definition MAX_RETRIES :: nat where
  "MAX_RETRIES = 3"

definition BASE_BACKOFF_MS :: nat where
  "BASE_BACKOFF_MS = 200"

text \<open>\<^verbatim>\<open>PERIOD_MAP\<close>: the CloudWatch period in seconds of each interval key.\<close>

definition PERIOD_MAP :: "string \<rightharpoonup> int" where
  "PERIOD_MAP = [''1m'' \<mapsto> 60, ''5m'' \<mapsto> 300, ''15m'' \<mapsto> 900, ''1h'' \<mapsto> 3600]"

subsection \<open>Splitting a range into queries\<close>

text \<open>\<^verbatim>\<open>Math.ceil(rangeSeconds / periodSeconds)\<close> with \<^verbatim>\<open>rangeSeconds = rangeMs / 1000\<close>.\<close>

definition estimatedDatapoints :: "int \<Rightarrow> int \<Rightarrow> int" where
  "estimatedDatapoints rangeMs periodSeconds =
     \<lceil>(rat_of_int rangeMs / 1000) / rat_of_int periodSeconds\<rceil>"

definition calculateQueryChunks :: "int \<Rightarrow> int \<Rightarrow> int" where
  "calculateQueryChunks rangeMs periodSeconds =
     (if estimatedDatapoints rangeMs periodSeconds \<le> MAX_DATAPOINTS then 1
      else \<lceil>rat_of_int (estimatedDatapoints rangeMs periodSeconds) / rat_of_int MAX_DATAPOINTS\<rceil>)"

text \<open>A chunk \<^verbatim>\<open>{ start: Date; end: Date }\<close>, both instants in milliseconds.\<close>

record chunk =
  startMs :: int
  endMs :: int

text \<open>
  The \<^verbatim>\<open>while (currentStart < endTime)\<close> loop of \<^verbatim>\<open>fetchMetricsWithPeriod\<close>. It
  pushes a chunk only when it has a positive duration, moves \<^verbatim>\<open>currentStart\<close> to the
  chunk's end and breaks once the end of the range is reached. With a chunk duration
  that is not positive the source loops forever; the model then has no value.
\<close>

partial_function (option) splitLoop :: "int \<Rightarrow> int \<Rightarrow> int \<Rightarrow> chunk list \<Rightarrow> chunk list option" where
  "splitLoop chunkDurationMs endTime currentStart chunks =
     (if currentStart < endTime then
        (let chunkEndTime = min (currentStart + chunkDurationMs) endTime;
             chunks' = (if chunkEndTime > currentStart
                        then chunks @ [\<lparr>startMs = currentStart, endMs = chunkEndTime\<rparr>]
                        else chunks)
         in if chunkEndTime \<ge> endTime then Some chunks'
            else splitLoop chunkDurationMs endTime chunkEndTime chunks')
      else Some chunks)"

text \<open>
  After the loop: an empty list becomes the single chunk of the whole range, otherwise
  the last chunk is stretched to the end of the range when it stops short of it.
\<close>

definition ensureCoverage :: "int \<Rightarrow> int \<Rightarrow> chunk list \<Rightarrow> chunk list" where
  "ensureCoverage start endTime chunks =
     (if length chunks = 0 then chunks @ [\<lparr>startMs = start, endMs = endTime\<rparr>]
      else (let lastChunk = last chunks in
            if endMs lastChunk < endTime
            then chunks[length chunks - 1 := \<lparr>startMs = startMs lastChunk, endMs = endTime\<rparr>]
            else chunks))"

text \<open>
  The chunks \<^verbatim>\<open>fetchMetricsWithPeriod\<close> queries: the range itself when
  \<^verbatim>\<open>numChunks === 1\<close>, otherwise the chunks of the loop.
\<close>

declare splitLoop.simps [code]

definition planChunks :: "int \<Rightarrow> int \<Rightarrow> int \<Rightarrow> int \<Rightarrow> chunk list option" where
  "planChunks start endTime period rangeMs =
     (if calculateQueryChunks rangeMs period = 1
      then Some [\<lparr>startMs = start, endMs = endTime\<rparr>]
      else (case splitLoop (MAX_DATAPOINTS * period * 1000) endTime start [] of
              None \<Rightarrow> None
            | Some chunks \<Rightarrow> Some (ensureCoverage start endTime chunks)))"

subsection \<open>The metric source\<close>

text \<open>
  \<^verbatim>\<open>GetMetricDataCommand\<close>: the fields of the query that vary (namespace, metric name
  and statistic are constants of the source).
\<close>

record GetMetricDataCommand =
  StartTime :: int
  EndTime :: int
  InstanceId :: string
  Period :: int

text \<open>
  \<^verbatim>\<open>MetricDataResult\<close>: two parallel arrays, either of which may be absent. A timestamp
  is \<open>None\<close> when the entry is null, undefined or not a valid date; a value is
  \<open>None\<close> when it is null or undefined.
\<close>

record MetricDataResult =
  Timestamps :: "int option list option"
  Values :: "rat option list option"

record response =
  MetricDataResults :: "MetricDataResult list option"

text \<open>
  A value thrown by \<^verbatim>\<open>client.send\<close>: the fields the retry logic inspects, and
  \<^verbatim>\<open>String(error)\<close>.
\<close>

record error =
  statusCode :: "int option"
  name :: "string option"
  asString :: string

text \<open>
  What a query has done so far: each call of \<^verbatim>\<open>client.send\<close> with its outcome, and
  each \<^verbatim>\<open>sleep\<close> with its delay in milliseconds. The metric source answers a
  command given everything that happened before it.
\<close>

datatype event = Invoked GetMetricDataCommand "error + response" | Slept nat

type_synonym source = "event list \<Rightarrow> GetMetricDataCommand \<Rightarrow> error + response"

subsection \<open>Fetching one chunk, with retries\<close>

fun startsWith :: "string \<Rightarrow> string \<Rightarrow> bool" where
  "startsWith s [] = True"
| "startsWith [] (c # cs) = False"
| "startsWith (x # xs) (c # cs) = (x = c \<and> startsWith xs cs)"

text \<open>\<^verbatim>\<open>String.prototype.includes\<close>.\<close>

fun str_includes :: "string \<Rightarrow> string \<Rightarrow> bool" where
  "str_includes [] sub = (sub = [])"
| "str_includes (x # xs) sub = (startsWith (x # xs) sub \<or> str_includes xs sub)"

definition isThrottling :: "error \<Rightarrow> bool" where
  "isThrottling e =
     (statusCode e = Some 429 \<or>
      name e = Some ''ThrottlingException'' \<or>
      str_includes (asString e) ''throttl'' \<or>
      str_includes (asString e) ''rate'')"

text \<open>\<^verbatim>\<open>response.MetricDataResults?.[0] ?? { Values: [], Timestamps: [] }\<close>.\<close>

definition firstResult :: "response \<Rightarrow> MetricDataResult" where
  "firstResult r =
     (case MetricDataResults r of
        Some (result # _) \<Rightarrow> result
      | _ \<Rightarrow> \<lparr>Timestamps = Some [], Values = Some []\<rparr>)"

text \<open>The command \<^verbatim>\<open>fetchChunkWithRetry\<close> builds for a chunk.\<close>

definition metricDataCommand :: "string \<Rightarrow> int \<Rightarrow> int \<Rightarrow> int \<Rightarrow> GetMetricDataCommand" where
  "metricDataCommand instanceId chunkStart chunkEnd period =
     \<lparr>StartTime = chunkStart, EndTime = chunkEnd, InstanceId = instanceId, Period = period\<rparr>"

function fetchChunkWithRetry ::
  "source \<Rightarrow> string \<Rightarrow> int \<Rightarrow> int \<Rightarrow> int \<Rightarrow> nat \<Rightarrow> event list
     \<Rightarrow> (error + MetricDataResult) \<times> event list" where
  "fetchChunkWithRetry send instanceId chunkStart chunkEnd period retryCount h =
     (let command = metricDataCommand instanceId chunkStart chunkEnd period;
          outcome = send h command;
          h1 = h @ [Invoked command outcome]
      in case outcome of
           Inr r \<Rightarrow> (Inr (firstResult r), h1)
         | Inl e \<Rightarrow>
             if isThrottling e \<and> retryCount < MAX_RETRIES then
               (let backoffMs = BASE_BACKOFF_MS * 2 ^ retryCount
                in fetchChunkWithRetry send instanceId chunkStart chunkEnd period
                     (retryCount + 1) (h1 @ [Slept backoffMs]))
             else (Inl e, h1))"
  by pat_completeness auto
termination
  by (relation "measure (\<lambda>(send, instanceId, chunkStart, chunkEnd, period, retryCount, h).
                  MAX_RETRIES - retryCount)") auto

declare fetchChunkWithRetry.simps [simp del]

subsection \<open>Fetching all chunks\<close>

text \<open>
  \<^verbatim>\<open>Promise.all(batch.map(chunk => fetchChunkWithRetry(...)))\<close> starts the fetch of
  every chunk of the batch, in the order of the batch, before any answer is delivered:
  each \<^verbatim>\<open>fetchChunkWithRetry\<close> runs up to its \<^verbatim>\<open>await client.send(command)\<close>. From
  then on the fetches advance one at a time, in an order the program does not choose.
  A fetch is, at any moment, awaiting the answer to the call of some attempt, sleeping
  before a retry, or fulfilled. The answer to a call is fixed by the metric source when
  the call is made, and recorded then; when it is delivered is left to a scheduler.
\<close>

datatype task =
    Awaiting nat "error + response"
  | Sleeping nat nat
  | Fulfilled MetricDataResult

text \<open>
  The scheduler names, by its position among the unsettled fetches, the fetch that
  advances next; it sees what the query has done and the state of every fetch, so any
  order of completion is the choice of some scheduler.
\<close>

type_synonym scheduler = "event list \<Rightarrow> (chunk \<times> task) list \<Rightarrow> nat"

text \<open>The call of attempt \<open>retryCount\<close>: the part of \<^verbatim>\<open>fetchChunkWithRetry\<close> before its \<^verbatim>\<open>await\<close>.\<close>

definition startAttempt ::
  "source \<Rightarrow> string \<Rightarrow> int \<Rightarrow> chunk \<Rightarrow> nat \<Rightarrow> event list \<Rightarrow> task \<times> event list" where
  "startAttempt send instanceId period c retryCount h =
     (let command = metricDataCommand instanceId (startMs c) (endMs c) period;
          outcome = send h command
      in (Awaiting retryCount outcome, h @ [Invoked command outcome]))"

text \<open>
  One step of a fetch: an answer is delivered (the fetch is fulfilled, goes to sleep
  before a retry, or is rejected with the error), or a sleep ends and the next attempt
  is called. A rejection is \<open>Inl\<close>.
\<close>

fun advance ::
  "source \<Rightarrow> string \<Rightarrow> int \<Rightarrow> chunk \<Rightarrow> task \<Rightarrow> event list \<Rightarrow> error + task \<times> event list" where
  "advance send instanceId period c (Awaiting retryCount (Inr r)) h =
     Inr (Fulfilled (firstResult r), h)"
| "advance send instanceId period c (Awaiting retryCount (Inl e)) h =
     (if isThrottling e \<and> retryCount < MAX_RETRIES
      then Inr (Sleeping (BASE_BACKOFF_MS * 2 ^ retryCount) (retryCount + 1), h)
      else Inl e)"
| "advance send instanceId period c (Sleeping backoffMs retryCount) h =
     Inr (startAttempt send instanceId period c retryCount (h @ [Slept backoffMs]))"
| "advance send instanceId period c (Fulfilled result) h = Inr (Fulfilled result, h)"

text \<open>\<^verbatim>\<open>batch.map(...)\<close>: the first attempt of every chunk is called, in order.\<close>

fun startAll ::
  "source \<Rightarrow> string \<Rightarrow> int \<Rightarrow> chunk list \<Rightarrow> event list \<Rightarrow> (chunk \<times> task) list \<times> event list" where
  "startAll send instanceId period [] h = ([], h)"
| "startAll send instanceId period (c # batch) h =
     (case startAttempt send instanceId period c 0 h of
        (t, h1) \<Rightarrow>
          (case startAll send instanceId period batch h1 of
             (tasks, h2) \<Rightarrow> ((c, t) # tasks, h2)))"

fun isFulfilled :: "task \<Rightarrow> bool" where
  "isFulfilled (Fulfilled result) = True"
| "isFulfilled _ = False"

definition unsettled :: "(chunk \<times> task) list \<Rightarrow> nat list" where
  "unsettled tasks = filter (\<lambda>i. \<not> isFulfilled (snd (tasks ! i))) [0..<length tasks]"

text \<open>The results of the fulfilled fetches, by position.\<close>

fun resultsOf :: "(chunk \<times> task) list \<Rightarrow> MetricDataResult list" where
  "resultsOf [] = []"
| "resultsOf ((c, Fulfilled result) # tasks) = result # resultsOf tasks"
| "resultsOf (_ # tasks) = resultsOf tasks"

text \<open>A bound on the steps a fetch can still take.\<close>

fun remaining :: "task \<Rightarrow> nat" where
  "remaining (Awaiting retryCount outcome) = 2 * (MAX_RETRIES - retryCount) + 1"
| "remaining (Sleeping backoffMs retryCount) = 2 * (MAX_RETRIES - retryCount) + 2"
| "remaining (Fulfilled result) = 0"

text \<open>
  \<^verbatim>\<open>await Promise.all(...)\<close>: fulfilled with the results by position once every fetch is
  fulfilled, rejected with the error of the first fetch that is rejected. What the
  fetches still under way do after a rejection is no longer part of the query.
\<close>

function awaitAll ::
  "scheduler \<Rightarrow> source \<Rightarrow> string \<Rightarrow> int \<Rightarrow> (chunk \<times> task) list \<Rightarrow> event list
     \<Rightarrow> (error + MetricDataResult list) \<times> event list" where
  "awaitAll pick send instanceId period tasks h =
     (if unsettled tasks = [] then (Inr (resultsOf tasks), h)
      else
        (let i = unsettled tasks ! (pick h tasks mod length (unsettled tasks))
         in case advance send instanceId period (fst (tasks ! i)) (snd (tasks ! i)) h of
              Inl e \<Rightarrow> (Inl e, h)
            | Inr (t, h') \<Rightarrow>
                awaitAll pick send instanceId period (tasks[i := (fst (tasks ! i), t)]) h'))"
  by pat_completeness auto
termination
proof (relation "measure (\<lambda>(pick, send, instanceId, period, tasks, h).
                   sum_list (map (\<lambda>ct. remaining (snd ct)) tasks))")
  show "wf (measure (\<lambda>(pick :: scheduler, send :: source, instanceId :: string, period :: int,
                      tasks, h :: event list).
                   sum_list (map (\<lambda>ct. remaining (snd ct)) tasks)))"
    by simp
next
  fix pick :: scheduler and send :: source and instanceId :: string and period :: int
    and tasks :: "(chunk \<times> task) list" and h :: "event list" and i x2 t h'
  assume ne: "unsettled tasks \<noteq> []"
    and i: "i = unsettled tasks ! (pick h tasks mod length (unsettled tasks))"
    and adv: "advance send instanceId period (fst (tasks ! i)) (snd (tasks ! i)) h = Inr x2"
    and x2: "(t, h') = x2"
  have "i \<in> set (unsettled tasks)"
    using ne i by simp
  then have il: "i < length tasks" and nf: "\<not> isFulfilled (snd (tasks ! i))"
    by (auto simp: unsettled_def)
  have less: "remaining t < remaining (snd (tasks ! i))"
  proof (cases "snd (tasks ! i)")
    case (Awaiting retryCount outcome)
    then show ?thesis
      using adv x2 by (cases outcome) (auto split: if_splits)
  next
    case (Sleeping backoffMs retryCount)
    then show ?thesis
      using adv x2 by (auto simp: startAttempt_def Let_def)
  next
    case (Fulfilled result)
    then show ?thesis using nf by simp
  qed
  have upd: "\<And>(xs :: (chunk \<times> task) list) j y.
      j < length xs \<Longrightarrow> remaining (snd y) < remaining (snd (xs ! j)) \<Longrightarrow>
      sum_list (map (\<lambda>ct. remaining (snd ct)) (xs[j := y])) <
      sum_list (map (\<lambda>ct. remaining (snd ct)) xs)"
  proof -
    fix xs :: "(chunk \<times> task) list" and j y
    show "j < length xs \<Longrightarrow> remaining (snd y) < remaining (snd (xs ! j)) \<Longrightarrow>
      sum_list (map (\<lambda>ct. remaining (snd ct)) (xs[j := y])) <
      sum_list (map (\<lambda>ct. remaining (snd ct)) xs)"
      by (induction xs arbitrary: j) (auto split: nat.splits)
  qed
  show "((pick, send, instanceId, period, tasks[i := (fst (tasks ! i), t)], h'),
         (pick, send, instanceId, period, tasks, h))
        \<in> measure (\<lambda>(pick, send, instanceId, period, tasks, h).
                     sum_list (map (\<lambda>ct. remaining (snd ct)) tasks))"
    using upd[OF il, of "(fst (tasks ! i), t)"] less by simp
qed

declare awaitAll.simps [simp del]

definition fetchBatch ::
  "scheduler \<Rightarrow> source \<Rightarrow> string \<Rightarrow> int \<Rightarrow> chunk list \<Rightarrow> event list
     \<Rightarrow> (error + MetricDataResult list) \<times> event list" where
  "fetchBatch pick send instanceId period batch h =
     (case startAll send instanceId period batch h of
        (tasks, h1) \<Rightarrow> awaitAll pick send instanceId period tasks h1)"

text \<open>The \<^verbatim>\<open>for (let i = 0; i < chunks.length; i += MAX_CONCURRENT_REQUESTS)\<close> loop.\<close>

function fetchChunksLoop ::
  "scheduler \<Rightarrow> source \<Rightarrow> string \<Rightarrow> chunk list \<Rightarrow> int \<Rightarrow> nat \<Rightarrow> MetricDataResult list
     \<Rightarrow> event list \<Rightarrow> (error + MetricDataResult list) \<times> event list" where
  "fetchChunksLoop pick send instanceId chunks period i results h =
     (if i < length chunks then
        (let batch = take MAX_CONCURRENT_REQUESTS (drop i chunks)
         in case fetchBatch pick send instanceId period batch h of
              (Inl e, h') \<Rightarrow> (Inl e, h')
            | (Inr batchResults, h') \<Rightarrow>
                fetchChunksLoop pick send instanceId chunks period (i + MAX_CONCURRENT_REQUESTS)
                  (results @ batchResults) h')
      else (Inr results, h))"
  by pat_completeness auto
termination
  by (relation "measure (\<lambda>(pick, send, instanceId, chunks, period, i, results, h).
                  length chunks - i)") (auto simp: MAX_CONCURRENT_REQUESTS_def)

declare fetchChunksLoop.simps [simp del]

definition fetchChunksConcurrently ::
  "scheduler \<Rightarrow> source \<Rightarrow> string \<Rightarrow> chunk list \<Rightarrow> int \<Rightarrow> event list
     \<Rightarrow> (error + MetricDataResult list) \<times> event list" where
  "fetchChunksConcurrently pick send instanceId chunks period h =
     fetchChunksLoop pick send instanceId chunks period 0 [] h"

text \<open>
  \<^verbatim>\<open>fetchMetricsWithPeriod\<close>: one query for the whole range when
  \<^verbatim>\<open>numChunks === 1\<close>, otherwise the chunks of the loop, fetched in batches.
\<close>

definition fetchMetricsWithPeriod ::
  "scheduler \<Rightarrow> source \<Rightarrow> string \<Rightarrow> int \<Rightarrow> int \<Rightarrow> int \<Rightarrow> int \<Rightarrow> event list
     \<Rightarrow> ((error + MetricDataResult list) \<times> event list) option" where
  "fetchMetricsWithPeriod pick send instanceId start endTime period rangeMs h =
     (if calculateQueryChunks rangeMs period = 1 then
        (case fetchChunkWithRetry send instanceId start endTime period 0 h of
           (Inl e, h') \<Rightarrow> Some (Inl e, h')
         | (Inr result, h') \<Rightarrow> Some (Inr [result], h'))
      else
        (case splitLoop (MAX_DATAPOINTS * period * 1000) endTime start [] of
           None \<Rightarrow> None
         | Some chunks \<Rightarrow>
             Some (fetchChunksConcurrently pick send instanceId
                     (ensureCoverage start endTime chunks) period h)))"

subsection \<open>Merging, deduplicating and sorting the samples\<close>

record point =
  timestamp :: int
  cpu :: rat

record CpuDataPoint = point +
  time :: string

record MetricResponse =
  data :: "CpuDataPoint list"
  adjustedInterval :: "string option"

definition hasData :: "MetricDataResult list \<Rightarrow> bool" where
  "hasData metricResults =
     list_ex (\<lambda>result.
         (case Values result of Some vs \<Rightarrow> int (length vs) | None \<Rightarrow> 0) > 0 \<or>
         (case Timestamps result of Some ts \<Rightarrow> int (length ts) | None \<Rightarrow> 0) > 0)
       metricResults"

text \<open>
  The inner loop over one result: index \<open>i\<close> runs over
  \<^verbatim>\<open>Math.min(timestamps.length, values.length)\<close> entries, which \<open>zip\<close> pairs up. An
  entry is kept when the timestamp and the value are present and the timestamp lies
  within one second of the requested range.
\<close>

fun collectValid :: "int \<Rightarrow> int \<Rightarrow> (int option \<times> rat option) list \<Rightarrow> point list" where
  "collectValid start endTime [] = []"
| "collectValid start endTime ((Some ts, Some v) # rest) =
     (if ts \<ge> start - 1000 \<and> ts \<le> endTime + 1000
      then \<lparr>timestamp = ts, cpu = v\<rparr> # collectValid start endTime rest
      else collectValid start endTime rest)"
| "collectValid start endTime (_ # rest) = collectValid start endTime rest"

definition samplesOf :: "MetricDataResult \<Rightarrow> (int option \<times> rat option) list" where
  "samplesOf result =
     zip (case Timestamps result of Some ts \<Rightarrow> ts | None \<Rightarrow> [])
         (case Values result of Some vs \<Rightarrow> vs | None \<Rightarrow> [])"

text \<open>
  \<^verbatim>\<open>dataPoints\<close>: the source fills \<^verbatim>\<open>allTimestamps\<close> and \<^verbatim>\<open>allValues\<close> in step and
  pairs them up again by index.
\<close>

definition dataPoints :: "int \<Rightarrow> int \<Rightarrow> MetricDataResult list \<Rightarrow> point list" where
  "dataPoints start endTime metricResults =
     concat (map (\<lambda>result. collectValid start endTime (samplesOf result)) metricResults)"

text \<open>\<^verbatim>\<open>Math.round(dp.timestamp / 1000) * 1000\<close>; \<^verbatim>\<open>Math.round\<close> rounds halves up.\<close>

definition roundedTs :: "int \<Rightarrow> int" where
  "roundedTs ts = \<lfloor>rat_of_int ts / 1000 + 1 / 2\<rfloor> * 1000"

text \<open>The \<^verbatim>\<open>filter\<close> with the \<^verbatim>\<open>seen\<close> set.\<close>

fun filterSeen :: "int set \<Rightarrow> point list \<Rightarrow> point list" where
  "filterSeen seen [] = []"
| "filterSeen seen (dp # dps) =
     (if roundedTs (timestamp dp) \<in> seen then filterSeen seen dps
      else dp # filterSeen (insert (roundedTs (timestamp dp)) seen) dps)"

text \<open>\<^verbatim>\<open>Array.prototype.sort\<close> is stable; so is \<open>sort_key\<close>.\<close>

definition uniqueDataPoints :: "point list \<Rightarrow> point list" where
  "uniqueDataPoints dps = sort_key timestamp (filterSeen {} dps)"

subsection \<open>Inferring the effective resolution\<close>

fun gaps :: "point list \<Rightarrow> rat list" where
  "gaps (a # b # rest) =
     (let deltaSec = rat_of_int (timestamp b - timestamp a) / 1000
      in (if deltaSec > 0 then [deltaSec] else []) @ gaps (b # rest))"
| "gaps _ = []"

text \<open>\<^verbatim>\<open>Math.min(...gaps)\<close>, called on a list that is not empty.\<close>

definition minGap :: "rat list \<Rightarrow> rat" where
  "minGap gs = fold min (tl gs) (hd gs)"

definition inferAdjustedInterval :: "string option \<Rightarrow> string \<Rightarrow> point list \<Rightarrow> string option" where
  "inferAdjustedInterval adjusted interval unique =
     (if adjusted = None \<and> interval = ''1m'' \<and> length unique > 1 then
        (if length (gaps unique) > 0 then
           (if minGap (gaps unique) \<ge> 240 then Some ''5m'' else adjusted)
         else adjusted)
      else adjusted)"

text \<open>
  \<^verbatim>\<open>toLocaleTimeString\<close> depends on the time zone of the host; it is a parameter
  \<open>fmt\<close> of the model.
\<close>

definition formattedData :: "(int \<Rightarrow> string) \<Rightarrow> point list \<Rightarrow> CpuDataPoint list" where
  "formattedData fmt unique =
     map (\<lambda>dp. \<lparr>timestamp = timestamp dp, cpu = cpu dp, time = fmt (timestamp dp)\<rparr>) unique"

text \<open>Everything \<^verbatim>\<open>getCpuMetrics\<close> does once the samples are fetched.\<close>

definition processResults ::
  "(int \<Rightarrow> string) \<Rightarrow> int \<Rightarrow> int \<Rightarrow> string \<Rightarrow> string option \<Rightarrow> MetricDataResult list
     \<Rightarrow> MetricResponse" where
  "processResults fmt start endTime interval adjusted metricResults =
     (let unique = uniqueDataPoints (dataPoints start endTime metricResults)
      in \<lparr>data = formattedData fmt unique,
          adjustedInterval = inferAdjustedInterval adjusted interval unique\<rparr>)"

subsection \<open>The query\<close>

definition getCpuMetrics ::
  "(int \<Rightarrow> string) \<Rightarrow> scheduler \<Rightarrow> source \<Rightarrow> string \<Rightarrow> int \<Rightarrow> int \<Rightarrow> string \<Rightarrow> event list
     \<Rightarrow> ((error + MetricResponse) \<times> event list) option" where
  "getCpuMetrics fmt pick send instanceId start endTime interval h =
     (let period = (case PERIOD_MAP interval of Some p \<Rightarrow> p | None \<Rightarrow> 300);
          rangeMs = endTime - start
      in case fetchMetricsWithPeriod pick send instanceId start endTime period rangeMs h of
           None \<Rightarrow> None
         | Some (Inl e, h1) \<Rightarrow> Some (Inl e, h1)
         | Some (Inr metricResults, h1) \<Rightarrow>
             if \<not> hasData metricResults \<and> period = 60 then
               (case fetchMetricsWithPeriod pick send instanceId start endTime 300 rangeMs h1 of
                  None \<Rightarrow> None
                | Some (Inl e, h2) \<Rightarrow> Some (Inl e, h2)
                | Some (Inr refetched, h2) \<Rightarrow>
                    Some (Inr (processResults fmt start endTime interval (Some ''5m'') refetched),
                          h2))
             else
               Some (Inr (processResults fmt start endTime interval None metricResults), h1))"

subsection \<open>Notions used to state the properties\<close>

text \<open>The chunks \<open>cs\<close> follow one another from \<open>s\<close> to \<open>e\<close>, each of positive length.\<close>

fun tiles :: "int \<Rightarrow> int \<Rightarrow> chunk list \<Rightarrow> bool" where
  "tiles s e [] = (s = e)"
| "tiles s e (c # cs) = (startMs c = s \<and> s < endMs c \<and> tiles (endMs c) e cs)"

text \<open>The calls of the metric source and the delays recorded in a history.\<close>

fun invocations :: "event list \<Rightarrow> GetMetricDataCommand list" where
  "invocations [] = []"
| "invocations (Invoked c r # h) = c # invocations h"
| "invocations (Slept ms # h) = invocations h"

fun delays :: "event list \<Rightarrow> nat list" where
  "delays [] = []"
| "delays (Invoked c r # h) = delays h"
| "delays (Slept ms # h) = ms # delays h"

text \<open>
  The history at the start of attempt \<open>n\<close> (counted from 0) of a chunk fetch begun at
  \<open>h\<close>, when every earlier attempt was answered and then followed by its backoff.
\<close>

fun attemptHistory :: "source \<Rightarrow> GetMetricDataCommand \<Rightarrow> event list \<Rightarrow> nat \<Rightarrow> event list" where
  "attemptHistory send c h 0 = h"
| "attemptHistory send c h (Suc n) =
     attemptHistory send c h n
       @ [Invoked c (send (attemptHistory send c h n) c), Slept (BASE_BACKOFF_MS * 2 ^ n)]"



subsection \<open>Example sources\<close>

text \<open>Errors, responses and metric sources like the mocks of the test suite.\<close>

definition throttlingError :: error where
  "throttlingError =
     \<lparr>statusCode = Some 429, name = Some ''Error'', asString = ''Error: Rate exceeded''\<rparr>"

definition invalidInstanceError :: error where
  "invalidInstanceError =
     \<lparr>statusCode = None, name = Some ''Error'', asString = ''Error: Invalid instance ID''\<rparr>"

definition oneSample :: response where
  "oneSample =
     \<lparr>MetricDataResults = Some [\<lparr>Timestamps = Some [Some 1000], Values = Some [Some 42]\<rparr>]\<rparr>"

definition alwaysThrottled :: source where
  "alwaysThrottled h c = Inl throttlingError"

definition throttledTwice :: source where
  "throttledTwice h c =
     (if length (invocations h) < 2 then Inl throttlingError else Inr oneSample)"

definition alwaysInvalid :: source where
  "alwaysInvalid h c = Inl invalidInstanceError"

text \<open>Schedulers: the first, or the last, of the unsettled fetches advances.\<close>

definition firstUnsettled :: scheduler where
  "firstUnsettled h tasks = 0"




text \<open>A time label that is always empty.\<close>

definition noLabel :: "int \<Rightarrow> string" where
  "noLabel ts = []"

text \<open>
  Samples out of order, with an entry without a timestamp, two timestamps in the same
  second, a timestamp far outside the range and an entry without a value.
\<close>

definition mixedResponse :: response where
  "mixedResponse =
     \<lparr>MetricDataResults = Some
        [\<lparr>Timestamps = Some [Some 4200000, Some 3600000, None, Some 3900000,
                             Some 3600400, Some 99999999, Some 4500000],
          Values = Some [Some 10, Some 20, Some 25, Some 30, Some 40, Some 50, None]\<rparr>]\<rparr>"

definition mixedSamples :: source where
  "mixedSamples h c = Inr mixedResponse"

definition emptyResponse :: response where
  "emptyResponse = \<lparr>MetricDataResults = Some [\<lparr>Timestamps = Some [], Values = Some []\<rparr>]\<rparr>"

definition alwaysEmpty :: source where
  "alwaysEmpty h c = Inr emptyResponse"

text \<open>No samples at a period of 60 seconds, one sample otherwise.\<close>

definition emptyThenOne :: source where
  "emptyThenOne h c = (if Period c = 60 then Inr emptyResponse else Inr oneSample)"

text \<open>
  No samples at a period of 60 seconds; otherwise one sample, stamped with the start
  of the minute in which a range beginning at 00:00:34 begins.
\<close>

definition earlySample :: response where
  "earlySample =
     \<lparr>MetricDataResults = Some [\<lparr>Timestamps = Some [Some 0], Values = Some [Some 75]\<rparr>]\<rparr>"

definition emptyThenEarly :: source where
  "emptyThenEarly h c = (if Period c = 60 then Inr emptyResponse else Inr earlySample)"

text \<open>Three samples five minutes apart.\<close>

definition fiveMinuteResponse :: response where
  "fiveMinuteResponse =
     \<lparr>MetricDataResults = Some
        [\<lparr>Timestamps = Some [Some 3600000, Some 3900000, Some 4200000],
          Values = Some [Some 10, Some 20, Some 30]\<rparr>]\<rparr>"

definition fiveMinuteSamples :: source where
  "fiveMinuteSamples h c = Inr fiveMinuteResponse"







text \<open>An error that carries no mark of throttling but has \<open>rate\<close> in its text.\<close>

definition generateReportError :: error where
  "generateReportError =
     \<lparr>statusCode = None, name = Some ''Error'', asString = ''Error: Failed to generate report''\<rparr>"

definition alwaysFailsToGenerate :: source where
  "alwaysFailsToGenerate h c = Inl generateReportError"

subsection \<open>The chunk plan\<close>

lemma splitLoop_tiles:
  "0 < d \<Longrightarrow> cur < e \<Longrightarrow>
   \<exists>cs. splitLoop d e cur acc = Some (acc @ cs) \<and> cs \<noteq> [] \<and> tiles cur e cs \<and>
        (\<forall>c \<in> set cs. endMs c - startMs c \<le> d) \<and>
        (\<forall>i. Suc i < length cs \<longrightarrow> endMs (cs ! i) - startMs (cs ! i) = d)"
proof (induction "nat (e - cur)" arbitrary: cur acc rule: less_induct)
  case less
  show ?case
  proof (cases "cur + d \<ge> e")
    case True
    then have "splitLoop d e cur acc = Some (acc @ [\<lparr>startMs = cur, endMs = e\<rparr>])"
      using less.prems by (subst splitLoop.simps) (simp add: Let_def min_def)
    then show ?thesis using less.prems True
      by (intro exI[of _ "[\<lparr>startMs = cur, endMs = e\<rparr>]"]) simp
  next
    case False
    let ?c = "\<lparr>startMs = cur, endMs = cur + d\<rparr>"
    have step: "splitLoop d e cur acc = splitLoop d e (cur + d) (acc @ [?c])"
      using less.prems False by (subst splitLoop.simps) (simp add: Let_def min_def)
    have "nat (e - (cur + d)) < nat (e - cur)" using less.prems False by simp
    moreover have "cur + d < e" using False by simp
    ultimately obtain cs where cs:
      "splitLoop d e (cur + d) (acc @ [?c]) = Some ((acc @ [?c]) @ cs)"
      "cs \<noteq> []" "tiles (cur + d) e cs" "\<forall>c \<in> set cs. endMs c - startMs c \<le> d"
      "\<forall>i. Suc i < length cs \<longrightarrow> endMs (cs ! i) - startMs (cs ! i) = d"
      using less.hyps[of "cur + d"] less.prems(1) by blast
    have nth: "\<forall>i. Suc i < length (?c # cs) \<longrightarrow>
        endMs ((?c # cs) ! i) - startMs ((?c # cs) ! i) = d"
      using cs(5) by (auto simp: nth_Cons split: nat.splits)
    show ?thesis using step cs(1-4) nth less.prems
      by (intro exI[of _ "?c # cs"]) simp
  qed
qed

lemma tiles_hd: "tiles s e cs \<Longrightarrow> cs \<noteq> [] \<Longrightarrow> startMs (hd cs) = s"
  by (cases cs) auto

lemma tiles_le: "tiles s e cs \<Longrightarrow> s \<le> e"
  by (induction cs arbitrary: s) force+

lemma tiles_last: "tiles s e cs \<Longrightarrow> cs \<noteq> [] \<Longrightarrow> endMs (last cs) = e"
  by (induction cs arbitrary: s) auto

lemma tiles_pos: "tiles s e cs \<Longrightarrow> c \<in> set cs \<Longrightarrow> startMs c < endMs c"
  by (induction cs arbitrary: s) auto

lemma tiles_adjacent:
  "tiles s e cs \<Longrightarrow> Suc i < length cs \<Longrightarrow> endMs (cs ! i) = startMs (cs ! Suc i)"
proof (induction cs arbitrary: s i)
  case Nil
  then show ?case by simp
next
  case (Cons c cs)
  show ?case
  proof (cases i)
    case 0
    then show ?thesis using Cons.prems by (cases cs) auto
  next
    case (Suc j)
    then show ?thesis using Cons.IH[of "endMs c" j] Cons.prems by simp
  qed
qed

lemma tiles_bounds: "tiles s e cs \<Longrightarrow> c \<in> set cs \<Longrightarrow> s \<le> startMs c \<and> endMs c \<le> e"
proof (induction cs arbitrary: s)
  case Nil
  then show ?case by simp
next
  case (Cons a cs)
  then show ?case using tiles_le[of "endMs a" e cs] by fastforce
qed

lemma tiles_ordered:
  "tiles s e cs \<Longrightarrow> i < j \<Longrightarrow> j < length cs \<Longrightarrow> endMs (cs ! i) \<le> startMs (cs ! j)"
proof (induction cs arbitrary: s i j)
  case Nil
  then show ?case by simp
next
  case (Cons c cs)
  obtain j' where j: "j = Suc j'" using Cons.prems(2) by (cases j) auto
  show ?case
  proof (cases i)
    case 0
    have "cs ! j' \<in> set cs" using Cons.prems(3) j by simp
    then show ?thesis
      using tiles_bounds[of "endMs c" e cs "cs ! j'"] Cons.prems(1) 0 j by simp
  next
    case (Suc i')
    then show ?thesis using Cons.IH[of "endMs c" i' j'] Cons.prems j by simp
  qed
qed

lemma tiles_union:
  "tiles s e cs \<Longrightarrow> cs \<noteq> [] \<Longrightarrow> (\<Union>c \<in> set cs. {startMs c .. endMs c}) = {s .. e}"
proof (induction cs arbitrary: s)
  case Nil
  then show ?case by simp
next
  case (Cons c cs)
  show ?case
  proof (cases cs)
    case Nil
    then show ?thesis using Cons.prems by auto
  next
    case (Cons a list)
    then have "(\<Union>c \<in> set cs. {startMs c .. endMs c}) = {endMs c .. e}"
      using Cons.IH[of "endMs c"] Cons.prems by simp
    moreover have "endMs c \<le> e" using tiles_le[of "endMs c" e cs] Cons.prems by simp
    ultimately show ?thesis using Cons.prems by auto
  qed
qed

lemma calculateQueryChunks_one:
  "(calculateQueryChunks r p = 1) = (estimatedDatapoints r p \<le> MAX_DATAPOINTS)"
  unfolding calculateQueryChunks_def MAX_DATAPOINTS_def by auto linarith

lemma estimatedDatapoints_le:
  "0 < p \<Longrightarrow> (estimatedDatapoints r p \<le> MAX_DATAPOINTS) = (r \<le> MAX_DATAPOINTS * p * 1000)"
  unfolding estimatedDatapoints_def MAX_DATAPOINTS_def
  by (simp add: ceiling_le_iff field_simps) linarith

lemma ensureCoverage_id:
  "cs \<noteq> [] \<Longrightarrow> endMs (last cs) = e \<Longrightarrow> ensureCoverage s e cs = cs"
  by (simp add: ensureCoverage_def)

lemma planChunks_tiles:
  assumes "s < e" "0 < p"
  shows "\<exists>cs. planChunks s e p (e - s) = Some cs \<and> cs \<noteq> [] \<and> tiles s e cs \<and>
           (\<forall>c \<in> set cs. endMs c - startMs c \<le> MAX_DATAPOINTS * p * 1000) \<and>
           (estimatedDatapoints (e - s) p \<le> MAX_DATAPOINTS \<longrightarrow>
              cs = [\<lparr>startMs = s, endMs = e\<rparr>]) \<and>
           (\<not> estimatedDatapoints (e - s) p \<le> MAX_DATAPOINTS \<longrightarrow>
              (\<forall>i. Suc i < length cs \<longrightarrow>
                 endMs (cs ! i) - startMs (cs ! i) = MAX_DATAPOINTS * p * 1000))"
proof (cases "estimatedDatapoints (e - s) p \<le> MAX_DATAPOINTS")
  case True
  then have "planChunks s e p (e - s) = Some [\<lparr>startMs = s, endMs = e\<rparr>]"
    by (simp add: planChunks_def calculateQueryChunks_one)
  moreover have "e - s \<le> MAX_DATAPOINTS * p * 1000"
    using True assms(2) by (simp add: estimatedDatapoints_le)
  ultimately show ?thesis using True assms(1) by simp
next
  case False
  have d: "0 < MAX_DATAPOINTS * p * 1000" using assms(2) by (simp add: MAX_DATAPOINTS_def)
  obtain cs where cs:
    "splitLoop (MAX_DATAPOINTS * p * 1000) e s [] = Some cs" "cs \<noteq> []" "tiles s e cs"
    "\<forall>c \<in> set cs. endMs c - startMs c \<le> MAX_DATAPOINTS * p * 1000"
    "\<forall>i. Suc i < length cs \<longrightarrow> endMs (cs ! i) - startMs (cs ! i) = MAX_DATAPOINTS * p * 1000"
    using splitLoop_tiles[OF d assms(1), of "[]"] by auto
  have "ensureCoverage s e cs = cs"
    using cs(2,3) by (simp add: ensureCoverage_id tiles_last)
  then have "planChunks s e p (e - s) = Some cs"
    using False cs(1) by (simp add: planChunks_def calculateQueryChunks_one)
  then show ?thesis using False cs by simp
qed

text \<open>
  C1. For a range with \<open>start < end\<close> and a period \<open>> 0\<close> the chunk plan exists (the
  splitting loop ends); it is the range itself when the estimated number of datapoints
  is at most 1440, and otherwise every chunk but the last lasts \<open>1440 * period\<close>
  seconds. The plan begins at the start of the range and ends at its end, each chunk
  begins where the one before it ends, so two chunks share at most a boundary instant
  and together the chunks cover exactly the range, and the estimated number of
  datapoints of every chunk is at most 1440.
\<close>

theorem chunk_plan_covers_range:
  assumes "start < endTime" and "0 < period"
  shows "\<exists>chunks. planChunks start endTime period (endTime - start) = Some chunks \<and>
     chunks \<noteq> [] \<and>
     startMs (hd chunks) = start \<and> endMs (last chunks) = endTime \<and>
     (\<forall>c \<in> set chunks. startMs c < endMs c) \<and>
     (\<forall>i. Suc i < length chunks \<longrightarrow> endMs (chunks ! i) = startMs (chunks ! Suc i)) \<and>
     (\<forall>i j. i < j \<and> j < length chunks \<longrightarrow> endMs (chunks ! i) \<le> startMs (chunks ! j)) \<and>
     (\<Union>c \<in> set chunks. {startMs c .. endMs c}) = {start .. endTime} \<and>
     (\<forall>c \<in> set chunks. estimatedDatapoints (endMs c - startMs c) period \<le> MAX_DATAPOINTS) \<and>
     (estimatedDatapoints (endTime - start) period \<le> MAX_DATAPOINTS \<longrightarrow>
        chunks = [\<lparr>startMs = start, endMs = endTime\<rparr>]) \<and>
     (\<not> estimatedDatapoints (endTime - start) period \<le> MAX_DATAPOINTS \<longrightarrow>
        (\<forall>i. Suc i < length chunks \<longrightarrow>
           endMs (chunks ! i) - startMs (chunks ! i) = MAX_DATAPOINTS * period * 1000))"
proof -
  obtain cs where cs:
    "planChunks start endTime period (endTime - start) = Some cs" "cs \<noteq> []"
    "tiles start endTime cs"
    "\<forall>c \<in> set cs. endMs c - startMs c \<le> MAX_DATAPOINTS * period * 1000"
    "estimatedDatapoints (endTime - start) period \<le> MAX_DATAPOINTS \<longrightarrow>
       cs = [\<lparr>startMs = start, endMs = endTime\<rparr>]"
    "\<not> estimatedDatapoints (endTime - start) period \<le> MAX_DATAPOINTS \<longrightarrow>
       (\<forall>i. Suc i < length cs \<longrightarrow>
          endMs (cs ! i) - startMs (cs ! i) = MAX_DATAPOINTS * period * 1000)"
    using planChunks_tiles[OF assms] by blast
  have 1: "startMs (hd cs) = start" using cs(2,3) by (rule tiles_hd[rotated])
  have 2: "endMs (last cs) = endTime" using cs(2,3) by (rule tiles_last[rotated])
  have 3: "\<forall>c \<in> set cs. startMs c < endMs c" using cs(3) tiles_pos by blast
  have 4: "\<forall>i. Suc i < length cs \<longrightarrow> endMs (cs ! i) = startMs (cs ! Suc i)"
    using cs(3) tiles_adjacent by blast
  have 5: "\<forall>i j. i < j \<and> j < length cs \<longrightarrow> endMs (cs ! i) \<le> startMs (cs ! j)"
    using cs(3) tiles_ordered by blast
  have 6: "(\<Union>c \<in> set cs. {startMs c .. endMs c}) = {start .. endTime}"
    using cs(3,2) by (rule tiles_union)
  have 7: "\<forall>c \<in> set cs. estimatedDatapoints (endMs c - startMs c) period \<le> MAX_DATAPOINTS"
    using cs(4) assms(2) by (simp add: estimatedDatapoints_le)
  show ?thesis
    using cs(1,2,5,6) 1 2 3 4 5 6 7 by (intro exI[of _ cs] conjI) blast+
qed

theorem chunk_plan_covers_range_witness:
  "(0::int) < 172800000 \<and> (0::int) < 60 \<and>
   planChunks 0 172800000 60 (172800000 - 0) =
     Some [\<lparr>startMs = 0, endMs = 86400000\<rparr>, \<lparr>startMs = 86400000, endMs = 172800000\<rparr>] \<and>
   (\<exists>chunks. planChunks 0 172800000 60 (172800000 - 0) = Some chunks \<and>
     chunks \<noteq> [] \<and>
     startMs (hd chunks) = 0 \<and> endMs (last chunks) = 172800000 \<and>
     (\<forall>c \<in> set chunks. startMs c < endMs c) \<and>
     (\<forall>i. Suc i < length chunks \<longrightarrow> endMs (chunks ! i) = startMs (chunks ! Suc i)) \<and>
     (\<forall>i j. i < j \<and> j < length chunks \<longrightarrow> endMs (chunks ! i) \<le> startMs (chunks ! j)) \<and>
     (\<Union>c \<in> set chunks. {startMs c .. endMs c}) = {0 .. 172800000} \<and>
     (\<forall>c \<in> set chunks. estimatedDatapoints (endMs c - startMs c) 60 \<le> MAX_DATAPOINTS) \<and>
     (estimatedDatapoints (172800000 - 0) 60 \<le> MAX_DATAPOINTS \<longrightarrow>
        chunks = [\<lparr>startMs = 0, endMs = 172800000\<rparr>]) \<and>
     (\<not> estimatedDatapoints (172800000 - 0) 60 \<le> MAX_DATAPOINTS \<longrightarrow>
        (\<forall>i. Suc i < length chunks \<longrightarrow>
           endMs (chunks ! i) - startMs (chunks ! i) = MAX_DATAPOINTS * 60 * 1000)))"
proof -
  have h1: "(0::int) < 172800000" by simp
  have h2: "(0::int) < 60" by simp
  have plan: "planChunks 0 172800000 60 (172800000 - 0) =
     Some [\<lparr>startMs = 0, endMs = 86400000\<rparr>, \<lparr>startMs = 86400000, endMs = 172800000\<rparr>]"
    by code_simp
  show ?thesis
    by (intro conjI) (rule h1 h2 plan chunk_plan_covers_range[OF h1 h2])+
qed

subsection \<open>Retries of one chunk fetch\<close>

lemma fetch_fulfilled:
  "send h (metricDataCommand instanceId s e p) = Inr r \<Longrightarrow>
   fetchChunkWithRetry send instanceId s e p retryCount h =
     (Inr (firstResult r), h @ [Invoked (metricDataCommand instanceId s e p) (Inr r)])"
  by (subst fetchChunkWithRetry.simps) (simp add: Let_def)

lemma fetch_rejected:
  "send h (metricDataCommand instanceId s e p) = Inl err \<Longrightarrow>
   \<not> (isThrottling err \<and> retryCount < MAX_RETRIES) \<Longrightarrow>
   fetchChunkWithRetry send instanceId s e p retryCount h =
     (Inl err, h @ [Invoked (metricDataCommand instanceId s e p) (Inl err)])"
  by (subst fetchChunkWithRetry.simps) (auto simp: Let_def)

lemma fetch_retried:
  "send h (metricDataCommand instanceId s e p) = Inl err \<Longrightarrow>
   isThrottling err \<Longrightarrow> retryCount < MAX_RETRIES \<Longrightarrow>
   fetchChunkWithRetry send instanceId s e p retryCount h =
     fetchChunkWithRetry send instanceId s e p (Suc retryCount)
       (h @ [Invoked (metricDataCommand instanceId s e p) (Inl err),
             Slept (BASE_BACKOFF_MS * 2 ^ retryCount)])"
  by (subst fetchChunkWithRetry.simps) (simp add: Let_def)

lemma invocations_append: "invocations (h @ h') = invocations h @ invocations h'"
  by (induction h rule: invocations.induct) auto

lemma delays_append: "delays (h @ h') = delays h @ delays h'"
  by (induction h rule: delays.induct) auto

lemma invocations_attemptHistory:
  "invocations (attemptHistory send c h k) = invocations h @ replicate k c"
  by (induction k) (auto simp: invocations_append replicate_append_same)

lemma delays_attemptHistory:
  "delays (attemptHistory send c h k) = delays h @ map (\<lambda>i. BASE_BACKOFF_MS * 2 ^ i) [0..<k]"
  by (induction k) (auto simp: delays_append)

lemma fetch_after_throttling:
  assumes "k \<le> MAX_RETRIES"
    and "\<forall>i<k. \<exists>err. send (attemptHistory send (metricDataCommand instanceId s e p) h i)
                      (metricDataCommand instanceId s e p) = Inl err \<and> isThrottling err"
  shows "fetchChunkWithRetry send instanceId s e p 0 h =
         fetchChunkWithRetry send instanceId s e p k
           (attemptHistory send (metricDataCommand instanceId s e p) h k)"
  using assms
proof (induction k)
  case 0
  then show ?case by simp
next
  case (Suc k)
  let ?c = "metricDataCommand instanceId s e p"
  obtain err where err: "send (attemptHistory send ?c h k) ?c = Inl err" "isThrottling err"
    using Suc.prems(2) by blast
  have "fetchChunkWithRetry send instanceId s e p 0 h =
        fetchChunkWithRetry send instanceId s e p k (attemptHistory send ?c h k)"
    using Suc by simp
  also have "\<dots> = fetchChunkWithRetry send instanceId s e p (Suc k)
        (attemptHistory send ?c h k @ [Invoked ?c (Inl err), Slept (BASE_BACKOFF_MS * 2 ^ k)])"
    using fetch_retried[of send "attemptHistory send ?c h k" instanceId s e p err k] err Suc.prems(1)
    by simp
  finally show ?case using err(1) by simp
qed

text \<open>
  C4. When every attempt of a chunk fetch is answered with a throttling error, the
  metric source is called exactly 4 times with the command of the chunk, the fetch
  sleeps 200, 400 and 800 ms between the calls, and it fails with the error of the 4th
  call. When the first \<open>k \<le> 3\<close> attempts are answered with throttling errors and the
  next one with a response, the fetch returns the result of that response after
  exactly \<open>k + 1\<close> calls and the first \<open>k\<close> of those delays.
\<close>

theorem fetch_retries_on_throttling:
  "((\<forall>i \<le> MAX_RETRIES.
       \<exists>err. send (attemptHistory send (metricDataCommand instanceId s e p) h i)
               (metricDataCommand instanceId s e p) = Inl err \<and> isThrottling err) \<longrightarrow>
    (\<exists>err h'.
       send (attemptHistory send (metricDataCommand instanceId s e p) h 3)
         (metricDataCommand instanceId s e p) = Inl err \<and>
       fetchChunkWithRetry send instanceId s e p 0 h = (Inl err, h') \<and>
       invocations h' = invocations h @ replicate 4 (metricDataCommand instanceId s e p) \<and>
       delays h' = delays h @ [200, 400, 800])) \<and>
   (k \<le> MAX_RETRIES \<and>
    (\<forall>i < k.
       \<exists>err. send (attemptHistory send (metricDataCommand instanceId s e p) h i)
               (metricDataCommand instanceId s e p) = Inl err \<and> isThrottling err) \<and>
    send (attemptHistory send (metricDataCommand instanceId s e p) h k)
      (metricDataCommand instanceId s e p) = Inr r \<longrightarrow>
    (\<exists>h'.
       fetchChunkWithRetry send instanceId s e p 0 h = (Inr (firstResult r), h') \<and>
       invocations h' = invocations h @ replicate (k + 1) (metricDataCommand instanceId s e p) \<and>
       delays h' = delays h @ map (\<lambda>i. 200 * 2 ^ i) [0..<k]))"
proof (intro conjI impI)
  let ?c = "metricDataCommand instanceId s e p"
  assume all: "\<forall>i \<le> MAX_RETRIES. \<exists>err. send (attemptHistory send ?c h i) ?c = Inl err \<and> isThrottling err"
  then obtain err where err: "send (attemptHistory send ?c h 3) ?c = Inl err"
    by (auto simp: MAX_RETRIES_def)
  have "fetchChunkWithRetry send instanceId s e p 0 h =
        fetchChunkWithRetry send instanceId s e p MAX_RETRIES (attemptHistory send ?c h MAX_RETRIES)"
    using all by (intro fetch_after_throttling) auto
  also have "\<dots> = (Inl err, attemptHistory send ?c h 3 @ [Invoked ?c (Inl err)])"
    using fetch_rejected[of send "attemptHistory send ?c h 3" instanceId s e p err MAX_RETRIES] err
    by (simp add: MAX_RETRIES_def)
  finally have run: "fetchChunkWithRetry send instanceId s e p 0 h =
      (Inl err, attemptHistory send ?c h 3 @ [Invoked ?c (Inl err)])" .
  have inv: "invocations (attemptHistory send ?c h 3 @ [Invoked ?c (Inl err)]) =
      invocations h @ replicate 4 ?c"
    by (simp add: invocations_append invocations_attemptHistory numeral_3_eq_3 numeral_Bit0)
  have del: "delays (attemptHistory send ?c h 3 @ [Invoked ?c (Inl err)]) =
      delays h @ [200, 400, 800]"
    by (simp add: delays_append delays_attemptHistory BASE_BACKOFF_MS_def numeral_3_eq_3)
  show "\<exists>err h'. send (attemptHistory send ?c h 3) ?c = Inl err \<and>
       fetchChunkWithRetry send instanceId s e p 0 h = (Inl err, h') \<and>
       invocations h' = invocations h @ replicate 4 ?c \<and>
       delays h' = delays h @ [200, 400, 800]"
    using err run inv del by blast
next
  let ?c = "metricDataCommand instanceId s e p"
  assume a: "k \<le> MAX_RETRIES \<and>
    (\<forall>i < k. \<exists>err. send (attemptHistory send ?c h i) ?c = Inl err \<and> isThrottling err) \<and>
    send (attemptHistory send ?c h k) ?c = Inr r"
  have "fetchChunkWithRetry send instanceId s e p 0 h =
        fetchChunkWithRetry send instanceId s e p k (attemptHistory send ?c h k)"
    using a by (intro fetch_after_throttling) auto
  also have "\<dots> = (Inr (firstResult r), attemptHistory send ?c h k @ [Invoked ?c (Inr r)])"
    using a by (intro fetch_fulfilled) simp
  finally have run: "fetchChunkWithRetry send instanceId s e p 0 h =
      (Inr (firstResult r), attemptHistory send ?c h k @ [Invoked ?c (Inr r)])" .
  have inv: "invocations (attemptHistory send ?c h k @ [Invoked ?c (Inr r)]) =
      invocations h @ replicate (k + 1) ?c"
    by (simp add: invocations_append invocations_attemptHistory replicate_append_same)
  have del: "delays (attemptHistory send ?c h k @ [Invoked ?c (Inr r)]) =
      delays h @ map (\<lambda>i. 200 * 2 ^ i) [0..<k]"
    by (simp add: delays_append delays_attemptHistory BASE_BACKOFF_MS_def)
  show "\<exists>h'. fetchChunkWithRetry send instanceId s e p 0 h = (Inr (firstResult r), h') \<and>
       invocations h' = invocations h @ replicate (k + 1) ?c \<and>
       delays h' = delays h @ map (\<lambda>i. 200 * 2 ^ i) [0..<k]"
    using run inv del by blast
qed


theorem fetch_retries_on_throttling_witness:
  "(\<exists>err h'.
       alwaysThrottled (attemptHistory alwaysThrottled (metricDataCommand ''i-xxx'' 0 60000 300) [] 3)
         (metricDataCommand ''i-xxx'' 0 60000 300) = Inl err \<and>
       fetchChunkWithRetry alwaysThrottled ''i-xxx'' 0 60000 300 0 [] = (Inl err, h') \<and>
       invocations h' = invocations [] @ replicate 4 (metricDataCommand ''i-xxx'' 0 60000 300) \<and>
       delays h' = delays [] @ [200, 400, 800]) \<and>
   (\<exists>h'.
       fetchChunkWithRetry throttledTwice ''i-xxx'' 0 60000 300 0 [] = (Inr (firstResult oneSample), h') \<and>
       invocations h' = invocations [] @ replicate (2 + 1) (metricDataCommand ''i-xxx'' 0 60000 300) \<and>
       delays h' = delays [] @ map (\<lambda>i. 200 * 2 ^ i) [0..<2])"
proof
  have always: "\<forall>i \<le> MAX_RETRIES.
       \<exists>err. alwaysThrottled (attemptHistory alwaysThrottled (metricDataCommand ''i-xxx'' 0 60000 300) [] i)
               (metricDataCommand ''i-xxx'' 0 60000 300) = Inl err \<and> isThrottling err"
    by (simp add: alwaysThrottled_def throttlingError_def isThrottling_def)
  show "\<exists>err h'.
       alwaysThrottled (attemptHistory alwaysThrottled (metricDataCommand ''i-xxx'' 0 60000 300) [] 3)
         (metricDataCommand ''i-xxx'' 0 60000 300) = Inl err \<and>
       fetchChunkWithRetry alwaysThrottled ''i-xxx'' 0 60000 300 0 [] = (Inl err, h') \<and>
       invocations h' = invocations [] @ replicate 4 (metricDataCommand ''i-xxx'' 0 60000 300) \<and>
       delays h' = delays [] @ [200, 400, 800]"
    using fetch_retries_on_throttling[where send = alwaysThrottled and instanceId = "''i-xxx''"
        and s = 0 and e = 60000 and p = 300 and h = "[]", THEN conjunct1, THEN mp, OF always] .
next
  have twice: "2 \<le> MAX_RETRIES \<and>
    (\<forall>i < 2.
       \<exists>err. throttledTwice (attemptHistory throttledTwice (metricDataCommand ''i-xxx'' 0 60000 300) [] i)
               (metricDataCommand ''i-xxx'' 0 60000 300) = Inl err \<and> isThrottling err) \<and>
    throttledTwice (attemptHistory throttledTwice (metricDataCommand ''i-xxx'' 0 60000 300) [] 2)
      (metricDataCommand ''i-xxx'' 0 60000 300) = Inr oneSample"
    by (auto simp: MAX_RETRIES_def throttledTwice_def throttlingError_def isThrottling_def
        numeral_2_eq_2 less_Suc_eq invocations_append)
  show "\<exists>h'.
       fetchChunkWithRetry throttledTwice ''i-xxx'' 0 60000 300 0 [] = (Inr (firstResult oneSample), h') \<and>
       invocations h' = invocations [] @ replicate (2 + 1) (metricDataCommand ''i-xxx'' 0 60000 300) \<and>
       delays h' = delays [] @ map (\<lambda>i. 200 * 2 ^ i) [0..<2]"
    using fetch_retries_on_throttling[where send = throttledTwice and instanceId = "''i-xxx''"
        and s = 0 and e = 60000 and p = 300 and h = "[]" and k = 2 and r = oneSample,
        THEN conjunct2, THEN mp, OF twice] .
qed

text \<open>
  C5 (as the code has it). When an attempt of a chunk fetch is answered with an error
  that the test \<open>isThrottling\<close> of the retry logic does not match (its status code is
  not 429, its name is not \<open>ThrottlingException\<close> and its text holds neither
  \<open>throttl\<close> nor \<open>rate\<close>), the fetch fails at once with that very error: the metric
  source has been called once more and the fetch has not slept.
\<close>

theorem other_errors_not_retried:
  assumes "send h (metricDataCommand instanceId s e p) = Inl err"
    and "\<not> isThrottling err"
  shows "fetchChunkWithRetry send instanceId s e p retryCount h =
           (Inl err, h @ [Invoked (metricDataCommand instanceId s e p) (Inl err)]) \<and>
         invocations (snd (fetchChunkWithRetry send instanceId s e p retryCount h)) =
           invocations h @ [metricDataCommand instanceId s e p] \<and>
         delays (snd (fetchChunkWithRetry send instanceId s e p retryCount h)) = delays h"
  using fetch_rejected[of send h instanceId s e p err retryCount] assms
  by (simp add: invocations_append delays_append)

theorem other_errors_not_retried_witness:
  "alwaysInvalid [] (metricDataCommand ''i-invalid'' 0 60000 300) = Inl invalidInstanceError \<and>
   \<not> isThrottling invalidInstanceError \<and>
   fetchChunkWithRetry alwaysInvalid ''i-invalid'' 0 60000 300 0 [] =
     (Inl invalidInstanceError,
      [] @ [Invoked (metricDataCommand ''i-invalid'' 0 60000 300) (Inl invalidInstanceError)]) \<and>
   invocations (snd (fetchChunkWithRetry alwaysInvalid ''i-invalid'' 0 60000 300 0 [])) =
     invocations [] @ [metricDataCommand ''i-invalid'' 0 60000 300] \<and>
   delays (snd (fetchChunkWithRetry alwaysInvalid ''i-invalid'' 0 60000 300 0 [])) = delays []"
proof -
  have a: "alwaysInvalid [] (metricDataCommand ''i-invalid'' 0 60000 300) = Inl invalidInstanceError"
    by (simp add: alwaysInvalid_def)
  have b: "\<not> isThrottling invalidInstanceError"
    by (simp add: isThrottling_def invalidInstanceError_def)
  show ?thesis
    using a b other_errors_not_retried[of alwaysInvalid "[]" "''i-invalid''" 0 60000 300
        invalidInstanceError 0, OF a b]
    by blast
qed

text \<open>
  An error without status code 429 and named \<open>Error\<close>, whose text holds \<open>rate\<close>
  inside \<open>generate\<close>, is taken for a throttling error and retried three times.
\<close>

theorem error_with_rate_in_text_retried:
  "statusCode generateReportError = None \<and>
   name generateReportError = Some ''Error'' \<and>
   asString generateReportError = ''Error: Failed to generate report'' \<and>
   fetchChunkWithRetry alwaysFailsToGenerate ''i-xxx'' 0 60000 300 0 [] =
     (Inl generateReportError,
      [Invoked (metricDataCommand ''i-xxx'' 0 60000 300) (Inl generateReportError), Slept 200,
       Invoked (metricDataCommand ''i-xxx'' 0 60000 300) (Inl generateReportError), Slept 400,
       Invoked (metricDataCommand ''i-xxx'' 0 60000 300) (Inl generateReportError), Slept 800,
       Invoked (metricDataCommand ''i-xxx'' 0 60000 300) (Inl generateReportError)])"
  by code_simp

subsection \<open>Deduplication and sorting\<close>

lemma set_collectValid:
  "set (collectValid s e xs) =
     {\<lparr>timestamp = ts, cpu = v\<rparr> | ts v. (Some ts, Some v) \<in> set xs \<and> s - 1000 \<le> ts \<and> ts \<le> e + 1000}"
  by (induction s e xs rule: collectValid.induct) auto

lemma set_dataPoints:
  "set (dataPoints s e results) =
     {\<lparr>timestamp = ts, cpu = v\<rparr> | ts v.
        (\<exists>result \<in> set results. (Some ts, Some v) \<in> set (samplesOf result)) \<and>
        s - 1000 \<le> ts \<and> ts \<le> e + 1000}"
  by (auto simp: dataPoints_def set_collectValid)

lemma set_filterSeen: "set (filterSeen seen dps) \<subseteq> set dps"
  by (induction dps arbitrary: seen) auto

lemma filterSeen_not_seen:
  "d \<in> set (filterSeen seen dps) \<Longrightarrow> roundedTs (timestamp d) \<notin> seen"
  by (induction dps arbitrary: seen) (auto split: if_splits)

lemma distinct_filterSeen:
  "distinct (map (\<lambda>d. roundedTs (timestamp d)) (filterSeen seen dps))"
  by (induction dps arbitrary: seen) (auto dest: filterSeen_not_seen)


lemma distinct_map_insort_key:
  "distinct (map f (insort_key g x xs)) = (f x \<notin> f ` set xs \<and> distinct (map f xs))"
  by (induction xs) (auto simp: set_insort_key)

lemma distinct_map_sort_key: "distinct (map f (sort_key g xs)) = distinct (map f xs)"
  by (induction xs) (auto simp: distinct_map_insort_key)

lemma set_uniqueDataPoints: "set (uniqueDataPoints dps) \<subseteq> set dps"
  by (simp add: uniqueDataPoints_def set_filterSeen)

lemma sorted_uniqueDataPoints: "sorted (map timestamp (uniqueDataPoints dps))"
  by (simp add: uniqueDataPoints_def)

lemma distinct_uniqueDataPoints:
  "distinct (map (\<lambda>d. roundedTs (timestamp d)) (uniqueDataPoints dps))"
  by (simp add: uniqueDataPoints_def distinct_map_sort_key distinct_filterSeen)


lemma timestamp_formattedData: "map timestamp (formattedData fmt u) = map timestamp u"
  by (simp add: formattedData_def comp_def)

lemma cpu_formattedData: "map cpu (formattedData fmt u) = map cpu u"
  by (simp add: formattedData_def comp_def)

lemma roundedTs_formattedData:
  "map (\<lambda>d. roundedTs (timestamp d)) (formattedData fmt u) = map (\<lambda>d. roundedTs (timestamp d)) u"
  by (simp add: formattedData_def comp_def)




subsection \<open>The query as a whole\<close>

lemma period_positive: "0 < (case PERIOD_MAP interval of Some p \<Rightarrow> p | None \<Rightarrow> 300)"
  by (simp add: PERIOD_MAP_def)

lemma period_60: "((case PERIOD_MAP interval of Some p \<Rightarrow> p | None \<Rightarrow> 300) = 60) = (interval = ''1m'')"
  by (simp add: PERIOD_MAP_def)

lemma period_1m: "PERIOD_MAP ''1m'' = Some 60"
  by (simp add: PERIOD_MAP_def)

lemma splitLoop_returns:
  assumes "0 < p" and "calculateQueryChunks (e - s) p \<noteq> 1"
  shows "\<exists>cs. splitLoop (MAX_DATAPOINTS * p * 1000) e s [] = Some cs"
proof -
  have "\<not> e - s \<le> MAX_DATAPOINTS * p * 1000"
    using assms by (simp add: calculateQueryChunks_one estimatedDatapoints_le)
  moreover have "0 < MAX_DATAPOINTS * p * 1000" using assms(1) by (simp add: MAX_DATAPOINTS_def)
  ultimately have "s < e" by linarith
  then show ?thesis
    using splitLoop_tiles[of "MAX_DATAPOINTS * p * 1000" s e "[]"] \<open>0 < MAX_DATAPOINTS * p * 1000\<close>
    by auto
qed

lemma fetchMetricsWithPeriod_returns:
  "0 < p \<Longrightarrow> \<exists>r h'. fetchMetricsWithPeriod pick send instanceId s e p (e - s) h = Some (r, h')"
  using splitLoop_returns[of p e s]
  by (cases "calculateQueryChunks (e - s) p = 1")
     (auto simp: fetchMetricsWithPeriod_def split: prod.splits sum.splits option.splits)

lemma getCpuMetrics_rejected:
  "fetchMetricsWithPeriod pick send instanceId s e
     (case PERIOD_MAP interval of Some p \<Rightarrow> p | None \<Rightarrow> 300) (e - s) h = Some (Inl err, h1) \<Longrightarrow>
   getCpuMetrics fmt pick send instanceId s e interval h = Some (Inl err, h1)"
  by (simp add: getCpuMetrics_def Let_def)

lemma getCpuMetrics_single_fetch:
  "fetchMetricsWithPeriod pick send instanceId s e
     (case PERIOD_MAP interval of Some p \<Rightarrow> p | None \<Rightarrow> 300) (e - s) h = Some (Inr results, h1) \<Longrightarrow>
   hasData results \<or> interval \<noteq> ''1m'' \<Longrightarrow>
   getCpuMetrics fmt pick send instanceId s e interval h =
     Some (Inr (processResults fmt s e interval None results), h1)"
  by (auto simp: getCpuMetrics_def Let_def period_60)

lemma getCpuMetrics_refetch:
  "fetchMetricsWithPeriod pick send instanceId s e 60 (e - s) h = Some (Inr results, h1) \<Longrightarrow>
   \<not> hasData results \<Longrightarrow>
   getCpuMetrics fmt pick send instanceId s e ''1m'' h =
     (case fetchMetricsWithPeriod pick send instanceId s e 300 (e - s) h1 of
        None \<Rightarrow> None
      | Some (Inl err, h2) \<Rightarrow> Some (Inl err, h2)
      | Some (Inr refetched, h2) \<Rightarrow>
          Some (Inr (processResults fmt s e ''1m'' (Some ''5m'') refetched), h2))"
  by (simp add: getCpuMetrics_def Let_def period_1m)

lemma getCpuMetrics_returns:
  "\<exists>r h'. getCpuMetrics fmt pick send instanceId s e interval h = Some (r, h')"
proof -
  let ?p = "case PERIOD_MAP interval of Some p \<Rightarrow> p | None \<Rightarrow> 300"
  obtain r1 h1 where f1: "fetchMetricsWithPeriod pick send instanceId s e ?p (e - s) h = Some (r1, h1)"
    using fetchMetricsWithPeriod_returns[OF period_positive] by blast
  show ?thesis
  proof (cases r1)
    case (Inl err)
    then show ?thesis using getCpuMetrics_rejected f1 by blast
  next
    case (Inr results)
    show ?thesis
    proof (cases "hasData results \<or> interval \<noteq> ''1m''")
      case True
      then show ?thesis using getCpuMetrics_single_fetch f1 Inr by blast
    next
      case False
      then have i: "interval = ''1m''" and nd: "\<not> hasData results" by auto
      have f60: "fetchMetricsWithPeriod pick send instanceId s e 60 (e - s) h = Some (Inr results, h1)"
        using f1 Inr i by (simp add: period_1m)
      obtain r2 h2 where f2: "fetchMetricsWithPeriod pick send instanceId s e 300 (e - s) h1 = Some (r2, h2)"
        using fetchMetricsWithPeriod_returns[of 300] by force
      show ?thesis
        using getCpuMetrics_refetch[OF f60 nd, of fmt] f2 i
        by (cases r2) auto
    qed
  qed
qed

lemma getCpuMetrics_fulfilled:
  assumes "getCpuMetrics fmt pick send instanceId s e interval h = Some (Inr res, h')"
  shows "\<exists>results adjusted p h0.
           fetchMetricsWithPeriod pick send instanceId s e p (e - s) h0 = Some (Inr results, h') \<and>
           res = processResults fmt s e interval adjusted results"
proof -
  let ?p = "case PERIOD_MAP interval of Some p \<Rightarrow> p | None \<Rightarrow> 300"
  obtain r1 h1 where f1: "fetchMetricsWithPeriod pick send instanceId s e ?p (e - s) h = Some (r1, h1)"
    using fetchMetricsWithPeriod_returns[OF period_positive] by blast
  show ?thesis
  proof (cases r1)
    case (Inl err)
    then show ?thesis using getCpuMetrics_rejected[of pick send instanceId s e interval h err h1 fmt] f1 assms
      by simp
  next
    case (Inr results)
    show ?thesis
    proof (cases "hasData results \<or> interval \<noteq> ''1m''")
      case True
      then have "getCpuMetrics fmt pick send instanceId s e interval h =
          Some (Inr (processResults fmt s e interval None results), h1)"
        using getCpuMetrics_single_fetch f1 Inr by blast
      then show ?thesis using assms f1 Inr by auto
    next
      case False
      then have i: "interval = ''1m''" and nd: "\<not> hasData results" by auto
      have f60: "fetchMetricsWithPeriod pick send instanceId s e 60 (e - s) h = Some (Inr results, h1)"
        using f1 Inr i by (simp add: period_1m)
      show ?thesis
        using getCpuMetrics_refetch[OF f60 nd, of fmt] assms i
        by (auto split: option.splits sum.splits prod.splits)
    qed
  qed
qed

text \<open>
  C8. \<open>getCpuMetrics\<close> always returns, and whatever the order of the samples the
  source delivers, the points of a result are in strictly ascending order of timestamp
  and no two of them round to the same second.
\<close>

theorem points_sorted_and_unique:
  "(\<exists>r h'. getCpuMetrics fmt pick send instanceId start endTime interval h = Some (r, h')) \<and>
   (\<forall>res h'. getCpuMetrics fmt pick send instanceId start endTime interval h = Some (Inr res, h') \<longrightarrow>
      sorted (map timestamp (data res)) \<and>
      sorted_wrt (<) (map timestamp (data res)) \<and>
      distinct (map (\<lambda>d. roundedTs (timestamp d)) (data res)))"
proof (intro conjI allI impI)
  show "\<exists>r h'. getCpuMetrics fmt pick send instanceId start endTime interval h = Some (r, h')"
    by (rule getCpuMetrics_returns)
next
  fix res h'
  assume "getCpuMetrics fmt pick send instanceId start endTime interval h = Some (Inr res, h')"
  then obtain results where
    d: "data res = formattedData fmt (uniqueDataPoints (dataPoints start endTime results))"
    using getCpuMetrics_fulfilled by (fastforce simp: processResults_def Let_def)
  show s: "sorted (map timestamp (data res))"
    by (simp add: d timestamp_formattedData sorted_uniqueDataPoints)
  show u: "distinct (map (\<lambda>d. roundedTs (timestamp d)) (data res))"
    by (simp add: d roundedTs_formattedData distinct_uniqueDataPoints)
  have "distinct (map timestamp (data res))"
    using u by (auto simp: distinct_map inj_on_def)
  then show "sorted_wrt (<) (map timestamp (data res))"
    using s by (simp add: strict_sorted_iff)
qed

theorem points_sorted_and_unique_witness:
  "getCpuMetrics noLabel firstUnsettled mixedSamples ''i-xxx'' 0 10800000 ''5m'' [] =
     Some (Inr \<lparr>data = [\<lparr>timestamp = 3600000, cpu = 20, time = []\<rparr>,
                        \<lparr>timestamp = 3900000, cpu = 30, time = []\<rparr>,
                        \<lparr>timestamp = 4200000, cpu = 10, time = []\<rparr>],
                adjustedInterval = None\<rparr>,
           [Invoked (metricDataCommand ''i-xxx'' 0 10800000 300) (Inr mixedResponse)]) \<and>
   sorted (map timestamp
     [\<lparr>timestamp = 3600000, cpu = 20, time = []\<rparr>, \<lparr>timestamp = 3900000, cpu = 30, time = []\<rparr>,
      \<lparr>timestamp = 4200000, cpu = 10, time = []\<rparr>]) \<and>
   sorted_wrt (<) (map timestamp
     [\<lparr>timestamp = 3600000, cpu = 20, time = []\<rparr>, \<lparr>timestamp = 3900000, cpu = 30, time = []\<rparr>,
      \<lparr>timestamp = 4200000, cpu = 10, time = []\<rparr>]) \<and>
   distinct (map (\<lambda>d. roundedTs (timestamp d))
     [\<lparr>timestamp = 3600000, cpu = 20, time = []\<rparr>, \<lparr>timestamp = 3900000, cpu = 30, time = []\<rparr>,
      \<lparr>timestamp = 4200000, cpu = 10, time = []\<rparr>])"
proof -
  have run: "getCpuMetrics noLabel firstUnsettled mixedSamples ''i-xxx'' 0 10800000 ''5m'' [] =
     Some (Inr \<lparr>data = [\<lparr>timestamp = 3600000, cpu = 20, time = []\<rparr>,
                        \<lparr>timestamp = 3900000, cpu = 30, time = []\<rparr>,
                        \<lparr>timestamp = 4200000, cpu = 10, time = []\<rparr>],
                adjustedInterval = None\<rparr>,
           [Invoked (metricDataCommand ''i-xxx'' 0 10800000 300) (Inr mixedResponse)])"
    by code_simp
  show ?thesis
    using run points_sorted_and_unique[of noLabel firstUnsettled mixedSamples "''i-xxx''" 0 10800000 "''5m''" "[]",
        THEN conjunct2, THEN spec, THEN spec, THEN mp, OF run]
    by simp
qed

lemma processResults_data:
  "data (processResults fmt s e interval adjusted results) =
     formattedData fmt (uniqueDataPoints (dataPoints s e results))"
  by (simp add: processResults_def Let_def)

lemma processResults_marked:
  "processResults fmt s e interval (Some a) results =
     \<lparr>data = formattedData fmt (uniqueDataPoints (dataPoints s e results)),
      adjustedInterval = Some a\<rparr>"
  by (simp add: processResults_def Let_def inferAdjustedInterval_def)

lemma set_formattedData:
  "d \<in> set (formattedData fmt u) \<Longrightarrow> \<lparr>timestamp = timestamp d, cpu = cpu d\<rparr> \<in> set u"
proof -
  assume "d \<in> set (formattedData fmt u)"
  then obtain dp where dp: "dp \<in> set u" "timestamp d = timestamp dp" "cpu d = cpu dp"
    by (auto simp: formattedData_def)
  have eq: "\<lparr>timestamp = timestamp dp, cpu = cpu dp\<rparr> = dp" by simp
  show ?thesis unfolding dp(2,3) eq by (rule dp(1))
qed

text \<open>
  C9. The merged series holds exactly the samples whose timestamp and value are both
  present and whose timestamp lies in \<open>[start - 1000, end + 1000]\<close> milliseconds; so
  every point of a result of \<open>getCpuMetrics\<close> lies within one second of the range and
  carries the value of a sample, present with its timestamp in one of the results of
  the fetch that ended the query.
\<close>

theorem invalid_samples_discarded:
  "set (dataPoints start endTime results) =
     {\<lparr>timestamp = ts, cpu = v\<rparr> | ts v.
        (\<exists>result \<in> set results. (Some ts, Some v) \<in> set (samplesOf result)) \<and>
        start - 1000 \<le> ts \<and> ts \<le> endTime + 1000} \<and>
   (\<forall>res h'. getCpuMetrics fmt pick send instanceId start endTime interval h = Some (Inr res, h') \<longrightarrow>
      (\<exists>fetched p h0.
         fetchMetricsWithPeriod pick send instanceId start endTime p (endTime - start) h0 =
           Some (Inr fetched, h') \<and>
         (\<forall>d \<in> set (data res).
            start - 1000 \<le> timestamp d \<and> timestamp d \<le> endTime + 1000 \<and>
            (\<exists>result \<in> set fetched.
               (Some (timestamp d), Some (cpu d)) \<in> set (samplesOf result)))))"
proof (intro conjI allI impI)
  show "set (dataPoints start endTime results) =
     {\<lparr>timestamp = ts, cpu = v\<rparr> | ts v.
        (\<exists>result \<in> set results. (Some ts, Some v) \<in> set (samplesOf result)) \<and>
        start - 1000 \<le> ts \<and> ts \<le> endTime + 1000}"
    by (rule set_dataPoints)
next
  fix res h'
  assume "getCpuMetrics fmt pick send instanceId start endTime interval h = Some (Inr res, h')"
  then obtain fetched adjusted p h0 where
    f: "fetchMetricsWithPeriod pick send instanceId start endTime p (endTime - start) h0 =
          Some (Inr fetched, h')"
    and r: "res = processResults fmt start endTime interval adjusted fetched"
    using getCpuMetrics_fulfilled by blast
  have "\<forall>d \<in> set (data res).
      start - 1000 \<le> timestamp d \<and> timestamp d \<le> endTime + 1000 \<and>
      (\<exists>result \<in> set fetched. (Some (timestamp d), Some (cpu d)) \<in> set (samplesOf result))"
  proof
    fix d assume "d \<in> set (data res)"
    then have "\<lparr>timestamp = timestamp d, cpu = cpu d\<rparr> \<in> set (uniqueDataPoints (dataPoints start endTime fetched))"
      using r by (simp add: processResults_data set_formattedData)
    then have "\<lparr>timestamp = timestamp d, cpu = cpu d\<rparr> \<in> set (dataPoints start endTime fetched)"
      using set_uniqueDataPoints by blast
    then show "start - 1000 \<le> timestamp d \<and> timestamp d \<le> endTime + 1000 \<and>
      (\<exists>result \<in> set fetched. (Some (timestamp d), Some (cpu d)) \<in> set (samplesOf result))"
      by (auto simp: set_dataPoints)
  qed
  then show "\<exists>fetched p h0.
         fetchMetricsWithPeriod pick send instanceId start endTime p (endTime - start) h0 =
           Some (Inr fetched, h') \<and>
         (\<forall>d \<in> set (data res).
            start - 1000 \<le> timestamp d \<and> timestamp d \<le> endTime + 1000 \<and>
            (\<exists>result \<in> set fetched.
               (Some (timestamp d), Some (cpu d)) \<in> set (samplesOf result)))"
    using f by blast
qed

theorem invalid_samples_discarded_witness:
  "getCpuMetrics noLabel firstUnsettled mixedSamples ''i-xxx'' 0 10800000 ''5m'' [] =
     Some (Inr \<lparr>data = [\<lparr>timestamp = 3600000, cpu = 20, time = []\<rparr>,
                        \<lparr>timestamp = 3900000, cpu = 30, time = []\<rparr>,
                        \<lparr>timestamp = 4200000, cpu = 10, time = []\<rparr>],
                adjustedInterval = None\<rparr>,
           [Invoked (metricDataCommand ''i-xxx'' 0 10800000 300) (Inr mixedResponse)]) \<and>
   (\<exists>fetched p h0.
      fetchMetricsWithPeriod firstUnsettled mixedSamples ''i-xxx'' 0 10800000 p (10800000 - 0) h0 =
        Some (Inr fetched,
              [Invoked (metricDataCommand ''i-xxx'' 0 10800000 300) (Inr mixedResponse)]) \<and>
      (\<forall>d \<in> set (data \<lparr>data = [\<lparr>timestamp = 3600000, cpu = 20, time = []\<rparr>,
                                \<lparr>timestamp = 3900000, cpu = 30, time = []\<rparr>,
                                \<lparr>timestamp = 4200000, cpu = 10, time = []\<rparr>],
                        adjustedInterval = None\<rparr>).
         0 - 1000 \<le> timestamp d \<and> timestamp d \<le> 10800000 + 1000 \<and>
         (\<exists>result \<in> set fetched. (Some (timestamp d), Some (cpu d)) \<in> set (samplesOf result))))"
proof -
  have run: "getCpuMetrics noLabel firstUnsettled mixedSamples ''i-xxx'' 0 10800000 ''5m'' [] =
     Some (Inr \<lparr>data = [\<lparr>timestamp = 3600000, cpu = 20, time = []\<rparr>,
                        \<lparr>timestamp = 3900000, cpu = 30, time = []\<rparr>,
                        \<lparr>timestamp = 4200000, cpu = 10, time = []\<rparr>],
                adjustedInterval = None\<rparr>,
           [Invoked (metricDataCommand ''i-xxx'' 0 10800000 300) (Inr mixedResponse)])"
    by code_simp
  show ?thesis
    using run invalid_samples_discarded[of 0 10800000 "[]" noLabel firstUnsettled mixedSamples "''i-xxx''"
        "''5m''" "[]", THEN conjunct2, THEN spec, THEN spec, THEN mp, OF run]
    by blast
qed

subsection \<open>The fallback to five minutes\<close>

lemma no_data_no_points: "\<not> hasData results \<Longrightarrow> dataPoints s e results = []"
  by (auto simp: hasData_def list_ex_iff dataPoints_def samplesOf_def split: option.splits)

lemma uniqueDataPoints_Nil: "uniqueDataPoints [] = []"
  by (simp add: uniqueDataPoints_def)

lemma uniqueDataPoints_nonempty: "dps \<noteq> [] \<Longrightarrow> uniqueDataPoints dps \<noteq> []"
proof -
  assume "dps \<noteq> []"
  then have "filterSeen {} dps \<noteq> []" by (cases dps) auto
  then have "set (sort_key timestamp (filterSeen {} dps)) \<noteq> {}" by simp
  then show ?thesis unfolding uniqueDataPoints_def by fastforce
qed

text \<open>
  C10. When the interval is \<open>1m\<close> and the fetch at 60 seconds returns no sample, the
  result of the query carries \<open>adjustedInterval = 5m\<close> whatever the fetch at 300
  seconds returns; when that fetch returns no sample either, its points are empty.
\<close>

theorem marked_5m_even_when_refetch_empty:
  assumes "fetchMetricsWithPeriod pick send instanceId start endTime 60 (endTime - start) h =
             Some (Inr results, h1)"
    and "\<not> hasData results"
    and "fetchMetricsWithPeriod pick send instanceId start endTime 300 (endTime - start) h1 =
             Some (Inr refetched, h2)"
  shows "(\<exists>res. getCpuMetrics fmt pick send instanceId start endTime ''1m'' h = Some (Inr res, h2) \<and>
                adjustedInterval res = Some ''5m'') \<and>
         (\<not> hasData refetched \<longrightarrow>
            getCpuMetrics fmt pick send instanceId start endTime ''1m'' h =
              Some (Inr \<lparr>data = [], adjustedInterval = Some ''5m''\<rparr>, h2))"
  using getCpuMetrics_refetch[OF assms(1,2), of fmt] assms(3)
  by (simp add: processResults_marked no_data_no_points uniqueDataPoints_Nil formattedData_def)

theorem marked_5m_even_when_refetch_empty_witness:
  "(\<exists>res. getCpuMetrics noLabel firstUnsettled alwaysEmpty ''i-xxx'' 0 60000 ''1m'' [] =
      Some (Inr res, [Invoked (metricDataCommand ''i-xxx'' 0 60000 60) (Inr emptyResponse),
                      Invoked (metricDataCommand ''i-xxx'' 0 60000 300) (Inr emptyResponse)]) \<and>
      adjustedInterval res = Some ''5m'') \<and>
   \<not> hasData [firstResult emptyResponse] \<and>
   getCpuMetrics noLabel firstUnsettled alwaysEmpty ''i-xxx'' 0 60000 ''1m'' [] =
     Some (Inr \<lparr>data = [], adjustedInterval = Some ''5m''\<rparr>,
           [Invoked (metricDataCommand ''i-xxx'' 0 60000 60) (Inr emptyResponse),
            Invoked (metricDataCommand ''i-xxx'' 0 60000 300) (Inr emptyResponse)])"
proof -
  have f1: "fetchMetricsWithPeriod firstUnsettled alwaysEmpty ''i-xxx'' 0 60000 60 (60000 - 0) [] =
      Some (Inr [firstResult emptyResponse],
            [Invoked (metricDataCommand ''i-xxx'' 0 60000 60) (Inr emptyResponse)])"
    by code_simp
  have nd: "\<not> hasData [firstResult emptyResponse]"
    by code_simp
  have f2: "fetchMetricsWithPeriod firstUnsettled alwaysEmpty ''i-xxx'' 0 60000 300 (60000 - 0)
        [Invoked (metricDataCommand ''i-xxx'' 0 60000 60) (Inr emptyResponse)] =
      Some (Inr [firstResult emptyResponse],
            [Invoked (metricDataCommand ''i-xxx'' 0 60000 60) (Inr emptyResponse),
             Invoked (metricDataCommand ''i-xxx'' 0 60000 300) (Inr emptyResponse)])"
    by code_simp
  show ?thesis
    using marked_5m_even_when_refetch_empty[OF f1 nd f2, of noLabel] nd by blast
qed

lemma valid_sample_gives_point:
  assumes "result \<in> set results" "(Some ts, Some v) \<in> set (samplesOf result)"
    "s - 1000 \<le> ts" "ts \<le> e + 1000"
  shows "formattedData fmt (uniqueDataPoints (dataPoints s e results)) \<noteq> []"
proof -
  have "\<lparr>timestamp = ts, cpu = v\<rparr> \<in> set (dataPoints s e results)"
    using assms by (auto simp: set_dataPoints)
  then have "dataPoints s e results \<noteq> []" by auto
  then show ?thesis by (simp add: formattedData_def uniqueDataPoints_nonempty)
qed

text \<open>
  C2 (as the code has it). When the interval is \<open>1m\<close> and the fetch at 60 seconds
  returns no sample, \<open>getCpuMetrics\<close> fetches the same range once more at 300 seconds,
  fails with the error of that fetch if it fails, and otherwise returns its samples,
  aggregated, with \<open>adjustedInterval = 5m\<close>. The points are not empty when that fetch
  returned a sample whose timestamp and value are present and whose timestamp lies
  within one second of the range. For every query, what the query has done at its end
  is what one fetch of the range has done, or that followed by one fetch of the range
  at 300 seconds: there is never a second re-fetch.
\<close>

theorem empty_1m_fetch_refetched_once:
  "(fetchMetricsWithPeriod pick send instanceId start endTime 60 (endTime - start) h =
      Some (Inr results, h1) \<and> \<not> hasData results \<longrightarrow>
    (\<exists>r2 h2.
       fetchMetricsWithPeriod pick send instanceId start endTime 300 (endTime - start) h1 = Some (r2, h2) \<and>
       getCpuMetrics fmt pick send instanceId start endTime ''1m'' h =
         Some (case r2 of
                 Inl err \<Rightarrow> Inl err
               | Inr refetched \<Rightarrow>
                   Inr \<lparr>data = formattedData fmt (uniqueDataPoints (dataPoints start endTime refetched)),
                        adjustedInterval = Some ''5m''\<rparr>,
               h2) \<and>
       (\<forall>refetched.
          r2 = Inr refetched \<and>
          (\<exists>result \<in> set refetched. \<exists>ts v.
             (Some ts, Some v) \<in> set (samplesOf result) \<and>
             start - 1000 \<le> ts \<and> ts \<le> endTime + 1000) \<longrightarrow>
          (\<exists>res. getCpuMetrics fmt pick send instanceId start endTime ''1m'' h = Some (Inr res, h2) \<and>
                 data res \<noteq> [] \<and> adjustedInterval res = Some ''5m'')))) \<and>
   (\<forall>r h'. getCpuMetrics fmt pick send instanceId start endTime interval h = Some (r, h') \<longrightarrow>
      (\<exists>r1 h1.
         fetchMetricsWithPeriod pick send instanceId start endTime
           (case PERIOD_MAP interval of Some p \<Rightarrow> p | None \<Rightarrow> 300) (endTime - start) h = Some (r1, h1) \<and>
         (h' = h1 \<or>
          (\<exists>r2. fetchMetricsWithPeriod pick send instanceId start endTime 300 (endTime - start) h1 =
                  Some (r2, h')))))"
proof (intro conjI impI allI)
  assume a: "fetchMetricsWithPeriod pick send instanceId start endTime 60 (endTime - start) h =
      Some (Inr results, h1) \<and> \<not> hasData results"
  obtain r2 h2 where f2:
    "fetchMetricsWithPeriod pick send instanceId start endTime 300 (endTime - start) h1 = Some (r2, h2)"
    using fetchMetricsWithPeriod_returns[of 300] by force
  have run: "getCpuMetrics fmt pick send instanceId start endTime ''1m'' h =
         Some (case r2 of
                 Inl err \<Rightarrow> Inl err
               | Inr refetched \<Rightarrow>
                   Inr \<lparr>data = formattedData fmt (uniqueDataPoints (dataPoints start endTime refetched)),
                        adjustedInterval = Some ''5m''\<rparr>,
               h2)"
    using getCpuMetrics_refetch[of pick send instanceId start endTime h results h1 fmt] a f2
    by (cases r2) (simp_all add: processResults_marked)
  have nonempty: "\<forall>refetched.
          r2 = Inr refetched \<and>
          (\<exists>result \<in> set refetched. \<exists>ts v.
             (Some ts, Some v) \<in> set (samplesOf result) \<and>
             start - 1000 \<le> ts \<and> ts \<le> endTime + 1000) \<longrightarrow>
          (\<exists>res. getCpuMetrics fmt pick send instanceId start endTime ''1m'' h = Some (Inr res, h2) \<and>
                 data res \<noteq> [] \<and> adjustedInterval res = Some ''5m'')"
    using run valid_sample_gives_point[of _ _ _ _ start endTime fmt] by auto
  show "\<exists>r2 h2.
       fetchMetricsWithPeriod pick send instanceId start endTime 300 (endTime - start) h1 = Some (r2, h2) \<and>
       getCpuMetrics fmt pick send instanceId start endTime ''1m'' h =
         Some (case r2 of
                 Inl err \<Rightarrow> Inl err
               | Inr refetched \<Rightarrow>
                   Inr \<lparr>data = formattedData fmt (uniqueDataPoints (dataPoints start endTime refetched)),
                        adjustedInterval = Some ''5m''\<rparr>,
               h2) \<and>
       (\<forall>refetched.
          r2 = Inr refetched \<and>
          (\<exists>result \<in> set refetched. \<exists>ts v.
             (Some ts, Some v) \<in> set (samplesOf result) \<and>
             start - 1000 \<le> ts \<and> ts \<le> endTime + 1000) \<longrightarrow>
          (\<exists>res. getCpuMetrics fmt pick send instanceId start endTime ''1m'' h = Some (Inr res, h2) \<and>
                 data res \<noteq> [] \<and> adjustedInterval res = Some ''5m''))"
    using f2 run nonempty by blast
next
  fix r h'
  assume g: "getCpuMetrics fmt pick send instanceId start endTime interval h = Some (r, h')"
  let ?p = "case PERIOD_MAP interval of Some p \<Rightarrow> p | None \<Rightarrow> 300"
  obtain r1 h1 where f1:
    "fetchMetricsWithPeriod pick send instanceId start endTime ?p (endTime - start) h = Some (r1, h1)"
    using fetchMetricsWithPeriod_returns[OF period_positive] by blast
  have "h' = h1 \<or>
          (\<exists>r2. fetchMetricsWithPeriod pick send instanceId start endTime 300 (endTime - start) h1 =
                  Some (r2, h'))"
  proof (cases r1)
    case (Inl err)
    then show ?thesis
      using getCpuMetrics_rejected[of pick send instanceId start endTime interval h err h1 fmt] f1 g
      by simp
  next
    case (Inr results)
    show ?thesis
    proof (cases "hasData results \<or> interval \<noteq> ''1m''")
      case True
      then show ?thesis
        using getCpuMetrics_single_fetch[of pick send instanceId start endTime interval h results h1 fmt]
          f1 g Inr by simp
    next
      case False
      then have i: "interval = ''1m''" and nd: "\<not> hasData results" by auto
      have f60: "fetchMetricsWithPeriod pick send instanceId start endTime 60 (endTime - start) h =
          Some (Inr results, h1)"
        using f1 Inr i by (simp add: period_1m)
      show ?thesis
        using getCpuMetrics_refetch[OF f60 nd, of fmt] g i
        by (auto split: option.splits sum.splits prod.splits)
    qed
  qed
  then show "\<exists>r1 h1.
         fetchMetricsWithPeriod pick send instanceId start endTime ?p (endTime - start) h = Some (r1, h1) \<and>
         (h' = h1 \<or>
          (\<exists>r2. fetchMetricsWithPeriod pick send instanceId start endTime 300 (endTime - start) h1 =
                  Some (r2, h')))"
    using f1 by blast
qed

text \<open>
  A range from 00:00:34 to 00:01:34: the fetch at 60 seconds is empty, the fetch at 300
  seconds returns one sample stamped 00:00:00, more than a second before the range.
  The sample is discarded and the points are empty.
\<close>

theorem refetched_samples_all_discarded:
  "fetchMetricsWithPeriod firstUnsettled emptyThenEarly ''i-xxx'' 34000 94000 60 (94000 - 34000) [] =
     Some (Inr [firstResult emptyResponse],
           [Invoked (metricDataCommand ''i-xxx'' 34000 94000 60) (Inr emptyResponse)]) \<and>
   \<not> hasData [firstResult emptyResponse] \<and>
   fetchMetricsWithPeriod firstUnsettled emptyThenEarly ''i-xxx'' 34000 94000 300 (94000 - 34000)
       [Invoked (metricDataCommand ''i-xxx'' 34000 94000 60) (Inr emptyResponse)] =
     Some (Inr [firstResult earlySample],
           [Invoked (metricDataCommand ''i-xxx'' 34000 94000 60) (Inr emptyResponse),
            Invoked (metricDataCommand ''i-xxx'' 34000 94000 300) (Inr earlySample)]) \<and>
   hasData [firstResult earlySample] \<and>
   getCpuMetrics noLabel firstUnsettled emptyThenEarly ''i-xxx'' 34000 94000 ''1m'' [] =
     Some (Inr \<lparr>data = [], adjustedInterval = Some ''5m''\<rparr>,
           [Invoked (metricDataCommand ''i-xxx'' 34000 94000 60) (Inr emptyResponse),
            Invoked (metricDataCommand ''i-xxx'' 34000 94000 300) (Inr earlySample)])"
  by code_simp

theorem empty_1m_fetch_refetched_once_witness:
  "fetchMetricsWithPeriod firstUnsettled emptyThenOne ''i-xxx'' 0 60000 60 (60000 - 0) [] =
     Some (Inr [firstResult emptyResponse],
           [Invoked (metricDataCommand ''i-xxx'' 0 60000 60) (Inr emptyResponse)]) \<and>
   \<not> hasData [firstResult emptyResponse] \<and>
   (\<exists>r2 h2.
       fetchMetricsWithPeriod firstUnsettled emptyThenOne ''i-xxx'' 0 60000 300 (60000 - 0)
         [Invoked (metricDataCommand ''i-xxx'' 0 60000 60) (Inr emptyResponse)] = Some (r2, h2) \<and>
       getCpuMetrics noLabel firstUnsettled emptyThenOne ''i-xxx'' 0 60000 ''1m'' [] =
         Some (case r2 of
                 Inl err \<Rightarrow> Inl err
               | Inr refetched \<Rightarrow>
                   Inr \<lparr>data = formattedData noLabel (uniqueDataPoints (dataPoints 0 60000 refetched)),
                        adjustedInterval = Some ''5m''\<rparr>,
               h2) \<and>
       (\<forall>refetched.
          r2 = Inr refetched \<and>
          (\<exists>result \<in> set refetched. \<exists>ts v.
             (Some ts, Some v) \<in> set (samplesOf result) \<and>
             0 - 1000 \<le> ts \<and> ts \<le> 60000 + 1000) \<longrightarrow>
          (\<exists>res. getCpuMetrics noLabel firstUnsettled emptyThenOne ''i-xxx'' 0 60000 ''1m'' [] = Some (Inr res, h2) \<and>
                 data res \<noteq> [] \<and> adjustedInterval res = Some ''5m''))) \<and>
   getCpuMetrics noLabel firstUnsettled emptyThenOne ''i-xxx'' 0 60000 ''1m'' [] =
     Some (Inr \<lparr>data = [\<lparr>timestamp = 1000, cpu = 42, time = []\<rparr>],
                adjustedInterval = Some ''5m''\<rparr>,
           [Invoked (metricDataCommand ''i-xxx'' 0 60000 60) (Inr emptyResponse),
            Invoked (metricDataCommand ''i-xxx'' 0 60000 300) (Inr oneSample)])"
proof -
  have f1: "fetchMetricsWithPeriod firstUnsettled emptyThenOne ''i-xxx'' 0 60000 60 (60000 - 0) [] =
     Some (Inr [firstResult emptyResponse],
           [Invoked (metricDataCommand ''i-xxx'' 0 60000 60) (Inr emptyResponse)])"
    by code_simp
  have nd: "\<not> hasData [firstResult emptyResponse]"
    by code_simp
  have run: "getCpuMetrics noLabel firstUnsettled emptyThenOne ''i-xxx'' 0 60000 ''1m'' [] =
     Some (Inr \<lparr>data = [\<lparr>timestamp = 1000, cpu = 42, time = []\<rparr>],
                adjustedInterval = Some ''5m''\<rparr>,
           [Invoked (metricDataCommand ''i-xxx'' 0 60000 60) (Inr emptyResponse),
            Invoked (metricDataCommand ''i-xxx'' 0 60000 300) (Inr oneSample)])"
    by code_simp
  show ?thesis
    using f1 nd run
      empty_1m_fetch_refetched_once[where send = emptyThenOne and instanceId = "''i-xxx''"
        and start = 0 and endTime = 60000 and h = "[]" and fmt = noLabel
        and results = "[firstResult emptyResponse]"
        and ?h1.0 = "[Invoked (metricDataCommand ''i-xxx'' 0 60000 60) (Inr emptyResponse)]",
        THEN conjunct1, THEN mp, OF conjI[OF f1 nd]]
    by blast
qed

subsection \<open>Detection of five-minute data\<close>

lemma minGap_Min: "gs \<noteq> [] \<Longrightarrow> minGap gs = Min (set gs)"
proof (cases gs)
  case Nil
  assume "gs \<noteq> []"
  with Nil show ?thesis by simp
next
  case (Cons g rest)
  then show ?thesis using Min.set_eq_fold[of g rest] by (simp add: minGap_def)
qed

lemma gaps_length: "gaps u \<noteq> [] \<Longrightarrow> 1 < length u"
  by (cases u rule: gaps.cases) auto

lemma inferAdjustedInterval_coarse:
  "gaps u \<noteq> [] \<Longrightarrow> 240 \<le> Min (set (gaps u)) \<Longrightarrow> inferAdjustedInterval None ''1m'' u = Some ''5m''"
  using gaps_length[of u] by (simp add: inferAdjustedInterval_def minGap_Min)

lemma inferAdjustedInterval_other:
  "interval \<noteq> ''1m'' \<Longrightarrow> inferAdjustedInterval adjusted interval u = adjusted"
  by (simp add: inferAdjustedInterval_def)

text \<open>
  C3. When the interval is \<open>1m\<close>, the fetch at 60 seconds returns samples and the
  smallest positive gap between consecutive points of the deduplicated, sorted series
  is at least 240 seconds, the query returns those points with
  \<open>adjustedInterval = 5m\<close> and has done nothing beyond that one fetch. Whenever the
  fetch at 60 seconds returns samples there is no second fetch, and a mark set by the
  fallback on an empty fetch is never reconsidered by the detection, so the two paths
  exclude one another. For any other interval the query does one fetch and leaves
  \<open>adjustedInterval\<close> unset.
\<close>

theorem coarse_samples_marked_without_refetch:
  "(fetchMetricsWithPeriod pick send instanceId start endTime 60 (endTime - start) h =
      Some (Inr results, h1) \<and> hasData results \<and>
    gaps (uniqueDataPoints (dataPoints start endTime results)) \<noteq> [] \<and>
    240 \<le> Min (set (gaps (uniqueDataPoints (dataPoints start endTime results)))) \<longrightarrow>
    getCpuMetrics fmt pick send instanceId start endTime ''1m'' h =
      Some (Inr \<lparr>data = formattedData fmt (uniqueDataPoints (dataPoints start endTime results)),
                 adjustedInterval = Some ''5m''\<rparr>, h1)) \<and>
   (fetchMetricsWithPeriod pick send instanceId start endTime 60 (endTime - start) h =
      Some (Inr results, h1) \<and> hasData results \<longrightarrow>
    (\<exists>res. getCpuMetrics fmt pick send instanceId start endTime ''1m'' h = Some (Inr res, h1) \<and>
           data res = formattedData fmt (uniqueDataPoints (dataPoints start endTime results)))) \<and>
   inferAdjustedInterval (Some a) interval u = Some a \<and>
   (interval \<noteq> ''1m'' \<and>
    fetchMetricsWithPeriod pick send instanceId start endTime
      (case PERIOD_MAP interval of Some p \<Rightarrow> p | None \<Rightarrow> 300) (endTime - start) h =
      Some (Inr results, h1) \<longrightarrow>
    getCpuMetrics fmt pick send instanceId start endTime interval h =
      Some (Inr \<lparr>data = formattedData fmt (uniqueDataPoints (dataPoints start endTime results)),
                 adjustedInterval = None\<rparr>, h1))"
proof (intro conjI impI)
  assume a: "fetchMetricsWithPeriod pick send instanceId start endTime 60 (endTime - start) h =
      Some (Inr results, h1) \<and> hasData results \<and>
    gaps (uniqueDataPoints (dataPoints start endTime results)) \<noteq> [] \<and>
    240 \<le> Min (set (gaps (uniqueDataPoints (dataPoints start endTime results))))"
  then show "getCpuMetrics fmt pick send instanceId start endTime ''1m'' h =
      Some (Inr \<lparr>data = formattedData fmt (uniqueDataPoints (dataPoints start endTime results)),
                 adjustedInterval = Some ''5m''\<rparr>, h1)"
    using getCpuMetrics_single_fetch[of pick send instanceId start endTime "''1m''" h results h1 fmt]
    by (simp add: period_1m processResults_def Let_def inferAdjustedInterval_coarse)
next
  assume a: "fetchMetricsWithPeriod pick send instanceId start endTime 60 (endTime - start) h =
      Some (Inr results, h1) \<and> hasData results"
  then show "\<exists>res. getCpuMetrics fmt pick send instanceId start endTime ''1m'' h = Some (Inr res, h1) \<and>
           data res = formattedData fmt (uniqueDataPoints (dataPoints start endTime results))"
    using getCpuMetrics_single_fetch[of pick send instanceId start endTime "''1m''" h results h1 fmt]
    by (simp add: period_1m processResults_data)
next
  show "inferAdjustedInterval (Some a) interval u = Some a"
    by (simp add: inferAdjustedInterval_def)
next
  assume a: "interval \<noteq> ''1m'' \<and>
    fetchMetricsWithPeriod pick send instanceId start endTime
      (case PERIOD_MAP interval of Some p \<Rightarrow> p | None \<Rightarrow> 300) (endTime - start) h =
      Some (Inr results, h1)"
  then show "getCpuMetrics fmt pick send instanceId start endTime interval h =
      Some (Inr \<lparr>data = formattedData fmt (uniqueDataPoints (dataPoints start endTime results)),
                 adjustedInterval = None\<rparr>, h1)"
    using getCpuMetrics_single_fetch[of pick send instanceId start endTime interval h results h1 fmt]
    by (simp add: processResults_def Let_def inferAdjustedInterval_other)
qed

theorem coarse_samples_marked_without_refetch_witness:
  "fetchMetricsWithPeriod firstUnsettled fiveMinuteSamples ''i-xxx'' 0 10800000 60 (10800000 - 0) [] =
     Some (Inr [firstResult fiveMinuteResponse],
           [Invoked (metricDataCommand ''i-xxx'' 0 10800000 60) (Inr fiveMinuteResponse)]) \<and>
   hasData [firstResult fiveMinuteResponse] \<and>
   gaps (uniqueDataPoints (dataPoints 0 10800000 [firstResult fiveMinuteResponse])) = [300, 300] \<and>
   240 \<le> Min (set (gaps (uniqueDataPoints (dataPoints 0 10800000 [firstResult fiveMinuteResponse])))) \<and>
   getCpuMetrics noLabel firstUnsettled fiveMinuteSamples ''i-xxx'' 0 10800000 ''1m'' [] =
     Some (Inr \<lparr>data = formattedData noLabel
                          (uniqueDataPoints (dataPoints 0 10800000 [firstResult fiveMinuteResponse])),
                adjustedInterval = Some ''5m''\<rparr>,
           [Invoked (metricDataCommand ''i-xxx'' 0 10800000 60) (Inr fiveMinuteResponse)]) \<and>
   ''15m'' \<noteq> ''1m'' \<and>
   getCpuMetrics noLabel firstUnsettled fiveMinuteSamples ''i-xxx'' 0 10800000 ''15m'' [] =
     Some (Inr \<lparr>data = formattedData noLabel
                          (uniqueDataPoints (dataPoints 0 10800000 [firstResult fiveMinuteResponse])),
                adjustedInterval = None\<rparr>,
           [Invoked (metricDataCommand ''i-xxx'' 0 10800000 900) (Inr fiveMinuteResponse)])"
proof -
  have f1: "fetchMetricsWithPeriod firstUnsettled fiveMinuteSamples ''i-xxx'' 0 10800000 60 (10800000 - 0) [] =
     Some (Inr [firstResult fiveMinuteResponse],
           [Invoked (metricDataCommand ''i-xxx'' 0 10800000 60) (Inr fiveMinuteResponse)])"
    by code_simp
  have hd: "hasData [firstResult fiveMinuteResponse]"
    by code_simp
  have g: "gaps (uniqueDataPoints (dataPoints 0 10800000 [firstResult fiveMinuteResponse])) = [300, 300]"
    by code_simp
  have g1: "gaps (uniqueDataPoints (dataPoints 0 10800000 [firstResult fiveMinuteResponse])) \<noteq> []"
    using g by simp
  have m: "240 \<le> Min (set (gaps (uniqueDataPoints (dataPoints 0 10800000 [firstResult fiveMinuteResponse]))))"
    unfolding g by simp
  have ne: "''15m'' \<noteq> ''1m''" by simp
  have f15: "fetchMetricsWithPeriod firstUnsettled fiveMinuteSamples ''i-xxx'' 0 10800000
      (case PERIOD_MAP ''15m'' of Some p \<Rightarrow> p | None \<Rightarrow> 300) (10800000 - 0) [] =
     Some (Inr [firstResult fiveMinuteResponse],
           [Invoked (metricDataCommand ''i-xxx'' 0 10800000 900) (Inr fiveMinuteResponse)])"
    by code_simp
  note inst = coarse_samples_marked_without_refetch[where send = fiveMinuteSamples
      and instanceId = "''i-xxx''" and start = 0 and endTime = 10800000 and h = "[]"
      and fmt = noLabel and results = "[firstResult fiveMinuteResponse]" and interval = "''15m''"]
  have a: "getCpuMetrics noLabel firstUnsettled fiveMinuteSamples ''i-xxx'' 0 10800000 ''1m'' [] =
     Some (Inr \<lparr>data = formattedData noLabel
                          (uniqueDataPoints (dataPoints 0 10800000 [firstResult fiveMinuteResponse])),
                adjustedInterval = Some ''5m''\<rparr>,
           [Invoked (metricDataCommand ''i-xxx'' 0 10800000 60) (Inr fiveMinuteResponse)])"
    using inst[THEN conjunct1, THEN mp, OF conjI[OF f1 conjI[OF hd conjI[OF g1 m]]]] .
  have b: "getCpuMetrics noLabel firstUnsettled fiveMinuteSamples ''i-xxx'' 0 10800000 ''15m'' [] =
     Some (Inr \<lparr>data = formattedData noLabel
                          (uniqueDataPoints (dataPoints 0 10800000 [firstResult fiveMinuteResponse])),
                adjustedInterval = None\<rparr>,
           [Invoked (metricDataCommand ''i-xxx'' 0 10800000 900) (Inr fiveMinuteResponse)])"
    using inst[THEN conjunct2, THEN conjunct2, THEN conjunct2, THEN mp, OF conjI[OF ne f15]] .
  show ?thesis using f1 hd g m a ne b by (intro conjI)
qed

subsection \<open>Fetching the chunks of a plan\<close>













lemma unsettled_awaiting: "unsettled [(c, Awaiting retryCount outcome)] = [0]"
  by (simp add: unsettled_def)

lemma unsettled_sleeping: "unsettled [(c, Sleeping backoffMs retryCount)] = [0]"
  by (simp add: unsettled_def)

lemma unsettled_fulfilled: "unsettled [(c, Fulfilled result)] = []"
  by (simp add: unsettled_def)

lemma awaitAll_fulfilled: "awaitAll pick send instanceId p [(c, Fulfilled result)] h = (Inr [result], h)"
  by (subst awaitAll.simps) (simp add: unsettled_fulfilled)

lemma awaitAll_single:
  "awaitAll pick send instanceId p
     [(c, Awaiting retryCount (send h (metricDataCommand instanceId (startMs c) (endMs c) p)))]
     (h @ [Invoked (metricDataCommand instanceId (startMs c) (endMs c) p)
             (send h (metricDataCommand instanceId (startMs c) (endMs c) p))]) =
   (case fetchChunkWithRetry send instanceId (startMs c) (endMs c) p retryCount h of
      (Inl e, h') \<Rightarrow> (Inl e, h')
    | (Inr result, h') \<Rightarrow> (Inr [result], h'))"
proof (induction "MAX_RETRIES - retryCount" arbitrary: retryCount h rule: less_induct)
  case less
  let ?cmd = "metricDataCommand instanceId (startMs c) (endMs c) p"
  let ?h1 = "h @ [Invoked ?cmd (send h ?cmd)]"
  show ?case
  proof (cases "send h ?cmd")
    case (Inr r)
    have "awaitAll pick send instanceId p [(c, Awaiting retryCount (Inr r))] (h @ [Invoked ?cmd (Inr r)]) =
        (Inr [firstResult r], h @ [Invoked ?cmd (Inr r)])"
      by (subst awaitAll.simps) (simp add: unsettled_awaiting awaitAll_fulfilled)
    then show ?thesis
      using fetch_fulfilled[of send h instanceId "startMs c" "endMs c" p r retryCount] Inr by simp
  next
    case (Inl e)
    show ?thesis
    proof (cases "isThrottling e \<and> retryCount < MAX_RETRIES")
      case False
      have "awaitAll pick send instanceId p [(c, Awaiting retryCount (Inl e))] (h @ [Invoked ?cmd (Inl e)]) =
          (Inl e, h @ [Invoked ?cmd (Inl e)])"
        using False by (subst awaitAll.simps) (auto simp: unsettled_awaiting)
      then show ?thesis
        using fetch_rejected[of send h instanceId "startMs c" "endMs c" p e retryCount] Inl False
        by simp
    next
      case True
      let ?ms = "BASE_BACKOFF_MS * 2 ^ retryCount"
      let ?h2 = "h @ [Invoked ?cmd (Inl e), Slept ?ms]"
      have step1: "awaitAll pick send instanceId p [(c, Awaiting retryCount (Inl e))]
            (h @ [Invoked ?cmd (Inl e)]) =
          awaitAll pick send instanceId p [(c, Sleeping ?ms (retryCount + 1))]
            (h @ [Invoked ?cmd (Inl e)])"
        using True by (subst awaitAll.simps) (simp add: unsettled_awaiting)
      have step2: "awaitAll pick send instanceId p [(c, Sleeping ?ms (retryCount + 1))]
            (h @ [Invoked ?cmd (Inl e)]) =
          awaitAll pick send instanceId p [(c, Awaiting (retryCount + 1) (send ?h2 ?cmd))]
            (?h2 @ [Invoked ?cmd (send ?h2 ?cmd)])"
        by (subst awaitAll.simps) (simp add: unsettled_sleeping startAttempt_def Let_def)
      have "MAX_RETRIES - (retryCount + 1) < MAX_RETRIES - retryCount" using True by arith
      then have step3: "awaitAll pick send instanceId p [(c, Awaiting (retryCount + 1) (send ?h2 ?cmd))]
            (?h2 @ [Invoked ?cmd (send ?h2 ?cmd)]) =
          (case fetchChunkWithRetry send instanceId (startMs c) (endMs c) p (retryCount + 1) ?h2 of
             (Inl e, h') \<Rightarrow> (Inl e, h')
           | (Inr result, h') \<Rightarrow> (Inr [result], h'))"
        by (rule less.hyps)
      have "fetchChunkWithRetry send instanceId (startMs c) (endMs c) p retryCount h =
            fetchChunkWithRetry send instanceId (startMs c) (endMs c) p (Suc retryCount) ?h2"
        using fetch_retried[of send h instanceId "startMs c" "endMs c" p e retryCount] Inl True
        by simp
      then show ?thesis using step1 step2 step3 Inl by simp
    qed
  qed
qed

lemma fetchBatch_single:
  "fetchBatch pick send instanceId p [c] h =
     (case fetchChunkWithRetry send instanceId (startMs c) (endMs c) p 0 h of
        (Inl e, h') \<Rightarrow> (Inl e, h')
      | (Inr result, h') \<Rightarrow> (Inr [result], h'))"
  using awaitAll_single[of pick send instanceId p c 0 h]
  by (simp add: fetchBatch_def startAttempt_def Let_def)

lemma fetchChunksConcurrently_single:
  "fetchChunksConcurrently pick send instanceId [c] p h =
     (case fetchChunkWithRetry send instanceId (startMs c) (endMs c) p 0 h of
        (Inl e, h') \<Rightarrow> (Inl e, h')
      | (Inr result, h') \<Rightarrow> (Inr [result], h'))"
  unfolding fetchChunksConcurrently_def
  apply (subst fetchChunksLoop.simps)
  apply (simp add: Let_def MAX_CONCURRENT_REQUESTS_def fetchBatch_single split: prod.splits sum.splits)
  apply (subst fetchChunksLoop.simps)
  apply simp
  done

lemma fetchMetricsWithPeriod_follows_plan:
  "fetchMetricsWithPeriod pick send instanceId s e p r h =
     (case planChunks s e p r of
        None \<Rightarrow> None
      | Some chunks \<Rightarrow> Some (fetchChunksConcurrently pick send instanceId chunks p h))"
proof (cases "calculateQueryChunks r p = 1")
  case True
  then show ?thesis
    using fetchChunksConcurrently_single[of pick send instanceId "\<lparr>startMs = s, endMs = e\<rparr>" p h]
    by (simp add: fetchMetricsWithPeriod_def planChunks_def split: prod.splits sum.splits)
next
  case False
  then show ?thesis
    by (simp add: fetchMetricsWithPeriod_def planChunks_def split: option.splits)
qed



end
